theory Spec2Isabelle
  imports Complex_Main "HOL-Library.Sublist"
begin

section \<open>Block-device statistics collector (internal/collector/diskstats\_linux.go)\<close>

text \<open>
  The collector reads \<^verbatim>\<open>/proc/diskstats\<close> and the \<^verbatim>\<open>/sys/block/*\<close> attribute
  tree and sends metric samples to a channel. The model follows the Go source function
  by function and keeps its names.

  \<^item> A Go \<^verbatim>\<open>string\<close> or \<^verbatim>\<open>[]byte\<close> is a \<open>string\<close> (a list of bytes).
  \<^item> A Go \<^verbatim>\<open>error\<close> is used by the code only through its message (\<^verbatim>\<open>%s\<close>), so
    an error is the message it carries; a \<^verbatim>\<open>nil\<close> error is \<open>None\<close>.
  \<^item> A finite \<^verbatim>\<open>float64\<close> is the \<open>real\<close> number it stands for. A product and the
    conversion of a constant are rounded as IEEE 754 binary64 rounds them (to the
    nearest value, ties to the even significand). Infinities and NaN, and so a
    product beyond the largest finite value, are outside the model.
  \<^item> The Go map \<^verbatim>\<open>map[string][]float64\<close> is a map \<open>string \<rightharpoonup> real list\<close>; a \<^verbatim>\<open>nil\<close>
    map is \<open>None\<close>.
  \<^item> What the operating system and the Go standard library answer (opening and
    scanning a file, globbing, reading a file, \<^verbatim>\<open>strconv.ParseFloat\<close>,
    \<^verbatim>\<open>filepath.Clean\<close>) is a parameter of the model, the record \<open>env\<close>.
\<close>

subsection \<open>Errors and the environment\<close>

datatype error = Error string

text \<open>\<^verbatim>\<open>fmt.Errorf(format + "%s", x)\<close>: the message is the format's text followed by \<open>x\<close>.\<close>

definition Errorf :: "string \<Rightarrow> string \<Rightarrow> error" where
  "Errorf msg arg = Error (msg @ arg)"

fun error_string :: "error \<Rightarrow> string" where
  "error_string (Error m) = m"

text \<open>
  A \<^verbatim>\<open>bufio.Scanner\<close> over a reader: \<open>scan_lines\<close> are the texts that successive
  calls of \<^verbatim>\<open>scanner.Scan()\<close> yield before it returns false, and \<open>scan_err\<close> is what
  \<^verbatim>\<open>scanner.Err()\<close> reports afterwards (a read error of the underlying reader, or
  \<^verbatim>\<open>bufio.ErrTooLong\<close> for a line that does not fit the scanner's buffer).
\<close>

record reader =
  scan_lines :: "string list"
  scan_err :: "error option"

record env =
  Open :: "string \<Rightarrow> error + reader"
  Glob :: "string \<Rightarrow> error + string list"
  ReadFile :: "string \<Rightarrow> error + string"
  Clean :: "string \<Rightarrow> string"
  ParseFloat :: "string \<Rightarrow> real option"

subsection \<open>strings.Fields\<close>

text \<open>
  \<^verbatim>\<open>strings.Fields\<close> splits around runs of white space as \<^verbatim>\<open>unicode.IsSpace\<close> defines
  it. \<open>space_width s\<close> is the number of bytes of the white-space rune that \<open>s\<close> starts
  with, and 0 when it starts with none: the six ASCII spaces, and the UTF-8 encodings
  of U+0085, U+00A0, U+1680, U+2000..U+200A, U+2028, U+2029, U+202F, U+205F and U+3000.
  A lead byte of UTF-8 is never a continuation byte, so each of these byte sequences
  is decoded as that rune wherever it stands.
\<close>

definition asciiSpace :: "char \<Rightarrow> bool" where
  "asciiSpace c = (c \<in> set [CHR 0x09, CHR 0x0A, CHR 0x0B, CHR 0x0C, CHR 0x0D, CHR 0x20])"

definition space_width :: "string \<Rightarrow> nat" where
  "space_width s =
     (case s of
        [] \<Rightarrow> 0
      | c # cs \<Rightarrow>
          if asciiSpace c then 1
          else if c = CHR 0xC2 then
            (if take 1 cs = [CHR 0x85] \<or> take 1 cs = [CHR 0xA0] then 2 else 0)
          else if c = CHR 0xE1 then
            (if take 2 cs = [CHR 0x9A, CHR 0x80] then 3 else 0)
          else if c = CHR 0xE2 then
            (if take 1 cs = [CHR 0x80] \<and> length cs \<ge> 2 \<and>
                ((of_char (CHR 0x80) \<le> (of_char (cs ! 1) :: nat) \<and>
                  (of_char (cs ! 1) :: nat) \<le> of_char (CHR 0x8A))
                 \<or> cs ! 1 \<in> set [CHR 0xA8, CHR 0xA9, CHR 0xAF])
             then 3
             else if take 2 cs = [CHR 0x81, CHR 0x9F] then 3
             else 0)
          else if c = CHR 0xE3 then
            (if take 2 cs = [CHR 0x80, CHR 0x80] then 3 else 0)
          else 0)"

text \<open>
  \<open>fields_from cur s\<close>: \<open>cur\<close> is the field being read (empty between fields), \<open>s\<close>
  the rest of the input.
\<close>

fun fields_from :: "string \<Rightarrow> string \<Rightarrow> string list" where
  "fields_from cur [] = (if cur = [] then [] else [cur])"
| "fields_from cur (c # cs) =
     (if 0 < space_width (c # cs)
      then (if cur = [] then [] else [cur]) @ fields_from [] (drop (space_width (c # cs) - 1) cs)
      else fields_from (cur @ [c]) cs)"

definition Fields :: "string \<Rightarrow> string list" where
  "Fields s = fields_from [] s"

subsection \<open>Regular expressions (package regexp)\<close>

text \<open>
  A compiled \<^verbatim>\<open>*regexp.Regexp\<close> is its syntax tree. The constructors are the ones the
  two patterns of the source use: a literal string, a character class (a list of
  inclusive byte ranges), concatenation, alternation, \<^verbatim>\<open>+\<close>, \<^verbatim>\<open>^\<close> and \<^verbatim>\<open>$\<close>.

  Go's matching is leftmost-first: the match starts as early as possible, and among the
  matches that start there it is the one a backtracking search finds first (the left
  alternative before the right one, one more iteration of \<^verbatim>\<open>+\<close> before stopping).
  \<open>matches r b s\<close> lists the lengths of the prefixes of \<open>s\<close> that \<open>r\<close> matches, in
  that order of preference; \<open>b\<close> says that \<open>s\<close> starts at the beginning of the text.
\<close>

datatype rexp =
    Lit string
  | Cls "(char \<times> char) list"
  | Seq rexp rexp
  | Alt rexp rexp
  | Plus rexp
  | Bol
  | Eol

definition in_class :: "(char \<times> char) list \<Rightarrow> char \<Rightarrow> bool" where
  "in_class rs c =
     (\<exists>(lo, hi) \<in> set rs. (of_char lo :: nat) \<le> of_char c \<and> (of_char c :: nat) \<le> of_char hi)"

function matches :: "rexp \<Rightarrow> bool \<Rightarrow> string \<Rightarrow> nat list" where
  "matches (Lit w) b s = (if take (length w) s = w then [length w] else [])"
| "matches (Cls rs) b s = (case s of [] \<Rightarrow> [] | c # _ \<Rightarrow> if in_class rs c then [1] else [])"
| "matches (Seq r1 r2) b s =
     concat (map (\<lambda>n. map (\<lambda>m. n + m) (matches r2 (b \<and> n = 0) (drop n s))) (matches r1 b s))"
| "matches (Alt r1 r2) b s = matches r1 b s @ matches r2 b s"
| "matches (Plus r) b s =
     concat (map (\<lambda>n. (if 0 < n \<and> n \<le> length s
                          then map (\<lambda>m. n + m) (matches (Plus r) False (drop n s))
                          else []) @ [n])
                 (matches r b s))"
| "matches Bol b s = (if b then [0] else [])"
| "matches Eol b s = (if s = [] then [0] else [])"
  by pat_completeness auto
termination
  by (relation "measures [\<lambda>(r, b, s). length s, \<lambda>(r, b, s). size r]") auto

text \<open>\<^verbatim>\<open>re.Find\<close>: the text of the leftmost-first match, \<open>None\<close> for Go's \<^verbatim>\<open>nil\<close>.\<close>

fun Find_at :: "rexp \<Rightarrow> bool \<Rightarrow> string \<Rightarrow> string option" where
  "Find_at r b s =
     (case matches r b s of
        n # _ \<Rightarrow> Some (take n s)
      | [] \<Rightarrow> (case s of [] \<Rightarrow> None | _ # s' \<Rightarrow> Find_at r False s'))"

definition Find :: "rexp \<Rightarrow> string \<Rightarrow> string option" where
  "Find re s = Find_at re True s"

definition MatchString :: "rexp \<Rightarrow> string \<Rightarrow> bool" where
  "MatchString re s = (Find re s \<noteq> None)"

text \<open>\<^verbatim>\<open>\d\<close> is the class of the ASCII digits.\<close>

definition digit :: rexp where
  "digit = Cls [(CHR ''0'', CHR ''9'')]"

subsection \<open>Constants\<close>

definition diskSectorSize :: real where
  "diskSectorSize = 512"

text \<open>
  The pattern \<^verbatim>\<open>^(ram|loop|fd|(h|s|v|xv)d[a-z]|nvme\d+n\d+p)\d+$\<close>, as
  \<^verbatim>\<open>regexp.MustCompile\<close> reads it.
\<close>

definition ignoredDevicesPattern :: rexp where
  "ignoredDevicesPattern =
     Seq Bol
      (Seq (Alt (Lit ''ram'')
           (Alt (Lit ''loop'')
           (Alt (Lit ''fd'')
           (Alt (Seq (Alt (Lit ''h'') (Alt (Lit ''s'') (Alt (Lit ''v'') (Lit ''xv''))))
                     (Seq (Lit ''d'') (Cls [(CHR ''a'', CHR ''z'')])))
                (Seq (Lit ''nvme'')
                     (Seq (Plus digit) (Seq (Lit ''n'') (Seq (Plus digit) (Lit ''p'')))))))))
      (Seq (Plus digit) Eol))"

subsection \<open>The line parser: parseDiskstats and getDiskstats\<close>

text \<open>
  The device filter, the test \<^verbatim>\<open>ignore != nil && ignore.MatchString(device)\<close> that both
  \<^verbatim>\<open>parseDiskstats\<close> and \<^verbatim>\<open>getStorageProperties\<close> make; a \<^verbatim>\<open>nil\<close> pattern is \<open>None\<close>.
\<close>

definition ignored :: "rexp option \<Rightarrow> string \<Rightarrow> bool" where
  "ignored ignore dev = (case ignore of None \<Rightarrow> False | Some re \<Rightarrow> MatchString re dev)"

text \<open>
  The inner loop of \<^verbatim>\<open>parseDiskstats\<close>: \<^verbatim>\<open>stat := make([]float64, len(values)-3)\<close>
  is a list of zeros, and \<^verbatim>\<open>for i := range stat\<close> stores each token that parses and
  leaves the zero where \<^verbatim>\<open>strconv.ParseFloat\<close> fails.
\<close>

definition parse_stat :: "(string \<Rightarrow> real option) \<Rightarrow> string list \<Rightarrow> real list" where
  "parse_stat pf values =
     foldl (\<lambda>stat i. case pf (values ! (i + 3)) of None \<Rightarrow> stat | Some v \<Rightarrow> stat[i := v])
           (replicate (length values - 3) 0)
           [0 ..< length values - 3]"

text \<open>
  The outer loop, \<^verbatim>\<open>for scanner.Scan()\<close>, over the lines the scanner yields, with the
  map built so far. The result is the pair the Go function returns.
\<close>

fun parse_lines ::
  "(string \<Rightarrow> real option) \<Rightarrow> rexp option \<Rightarrow> (string \<rightharpoonup> real list) \<Rightarrow> string list \<Rightarrow> error option
     \<Rightarrow> (string \<rightharpoonup> real list) option \<times> error option" where
  "parse_lines pf ignore stats [] err = (Some stats, err)"
| "parse_lines pf ignore stats (line # rest) err =
     (let values = Fields line in
      if length values \<noteq> 14 \<and> length values \<noteq> 18 \<and> length values \<noteq> 20
      then (None, Some (Errorf ''invalid /proc/diskstats file, too few columns in line: '' line))
      else
        let dev = values ! 2 in
        if ignored ignore dev
        then parse_lines pf ignore stats rest err
        else parse_lines pf ignore (stats(dev \<mapsto> parse_stat pf values)) rest err)"

definition parseDiskstats ::
  "(string \<Rightarrow> real option) \<Rightarrow> reader \<Rightarrow> rexp option
     \<Rightarrow> (string \<rightharpoonup> real list) option \<times> error option" where
  "parseDiskstats pf r ignore = parse_lines pf ignore Map.empty (scan_lines r) (scan_err r)"

definition getDiskstats ::
  "env \<Rightarrow> rexp option \<Rightarrow> (string \<rightharpoonup> real list) option \<times> error option" where
  "getDiskstats e ignore =
     (case Open e ''/proc/diskstats'' of
        Inl err \<Rightarrow> (None, Some err)
      | Inr file \<Rightarrow> parseDiskstats (ParseFloat e) file ignore)"

subsection \<open>The sysfs property reader\<close>

record storageDeviceProperties =
  device :: string
  rotational :: string
  scheduler :: string

text \<open>
  \<^verbatim>\<open>strings.Split(s, sep)\<close> for a separator that is not empty (the source passes
  \<^verbatim>\<open>"/"\<close>): \<open>split_from sep cur s\<close> has read \<open>cur\<close> of the current part.
\<close>

fun split_from :: "string \<Rightarrow> string \<Rightarrow> string \<Rightarrow> string list" where
  "split_from sep cur [] = [cur]"
| "split_from sep cur (c # cs) =
     (if sep \<noteq> [] \<and> take (length sep) (c # cs) = sep
      then cur # split_from sep [] (drop (length sep - 1) cs)
      else split_from sep (cur @ [c]) cs)"

definition Split :: "string \<Rightarrow> string \<Rightarrow> string list" where
  "Split s sep = split_from sep [] s"

text \<open>
  \<^verbatim>\<open>bufio.NewReader(bytes.NewBuffer(content)).ReadLine()\<close>, with the line it returns
  (the \<^verbatim>\<open>isPrefix\<close> flag is dropped by the source). The reader's buffer holds 4096
  bytes: an empty content is the error \<^verbatim>\<open>io.EOF\<close>; a line feed among the first 4096
  bytes ends the line, which loses the line feed and a carriage return before it; with
  no line feed, a full buffer is returned as a line (less a final carriage return),
  and a shorter content is returned whole.
\<close>

definition ReadLine :: "string \<Rightarrow> error + string" where
  "ReadLine content =
     (if content = [] then Inl (Error ''EOF'')
      else
        let buf = take 4096 content in
        if CHR 0x0A \<in> set buf then
          (let line = takeWhile (\<lambda>c. c \<noteq> CHR 0x0A) buf
           in Inr (if line \<noteq> [] \<and> last line = CHR 0x0D then butlast line else line))
        else if length buf = 4096 then
          Inr (if last buf = CHR 0x0D then butlast buf else buf)
        else Inr buf)"

text \<open>\<^verbatim>\<open>bytes.Trim(s, cutset)\<close> for a cutset of ASCII characters.\<close>

definition Trim :: "string \<Rightarrow> string \<Rightarrow> string" where
  "Trim s cutset =
     rev (dropWhile (\<lambda>c. c \<in> set cutset) (rev (dropWhile (\<lambda>c. c \<in> set cutset) s)))"

definition getDeviceRotational :: "env \<Rightarrow> string \<Rightarrow> error + string" where
  "getDeviceRotational e devpath =
     (let rotationalFile = devpath @ ''/queue/rotational'' in
      case ReadFile e (Clean e rotationalFile) of
        Inl err \<Rightarrow> Inl err
      | Inr content \<Rightarrow>
          (case ReadLine content of
             Inl err \<Rightarrow> Inl err
           | Inr line \<Rightarrow>
               if line = ''0'' \<or> line = ''1'' then Inr line
               else Inl (Errorf ''unknown rotational '' line)))"

text \<open>The pattern \<^verbatim>\<open>[[a-z-]+]|none\<close> as \<^verbatim>\<open>regexp.Compile\<close> reads it: the class holds
  \<^verbatim>\<open>[\<close>, the lower-case letters and \<^verbatim>\<open>-\<close>; the \<^verbatim>\<open>]\<close> after \<^verbatim>\<open>+\<close> is a literal.
  The pattern is well formed, so \<^verbatim>\<open>Compile\<close> returns no error.\<close>

definition schedulerPattern :: rexp where
  "schedulerPattern =
     Alt (Seq (Plus (Cls [(CHR ''['', CHR ''[''), (CHR ''a'', CHR ''z''), (CHR ''-'', CHR ''-'')]))
              (Lit '']''))
         (Lit ''none'')"

definition getDeviceScheduler :: "env \<Rightarrow> string \<Rightarrow> error + string" where
  "getDeviceScheduler e devpath =
     (let re = schedulerPattern;
          schedulerFile = devpath @ ''/queue/scheduler'' in
      case ReadFile e (Clean e schedulerFile) of
        Inl err \<Rightarrow> Inl err
      | Inr content \<Rightarrow>
          (case ReadLine content of
             Inl err \<Rightarrow> Inl err
           | Inr line \<Rightarrow>
               (case Find re line of
                  Some sched \<Rightarrow> Inr (Trim sched ''[]'')
                | None \<Rightarrow> Inl (Errorf ''unknown scheduler: '' line))))"

text \<open>
  The loop of \<^verbatim>\<open>getStorageProperties\<close> over the globbed paths, with the slice built
  so far. A device that is ignored, or whose \<^verbatim>\<open>rotational\<close> or \<^verbatim>\<open>scheduler\<close> fails, is
  passed over (\<^verbatim>\<open>continue\<close>; the log line is not modelled).
\<close>

fun storage_loop ::
  "env \<Rightarrow> rexp option \<Rightarrow> storageDeviceProperties list \<Rightarrow> string list
     \<Rightarrow> storageDeviceProperties list" where
  "storage_loop e ignore storages [] = storages"
| "storage_loop e ignore storages (devpath # dirs) =
     (let parts = Split devpath ''/'';
          dev = parts ! (length parts - 1) in
      if ignored ignore dev
      then storage_loop e ignore storages dirs
      else
        case getDeviceRotational e devpath of
          Inl err \<Rightarrow> storage_loop e ignore storages dirs
        | Inr rot \<Rightarrow>
            (case getDeviceScheduler e devpath of
               Inl err \<Rightarrow> storage_loop e ignore storages dirs
             | Inr sched \<Rightarrow>
                 storage_loop e ignore
                   (storages @ [\<lparr>device = dev, rotational = rot, scheduler = sched\<rparr>])
                   dirs))"

definition getStorageProperties ::
  "env \<Rightarrow> string \<Rightarrow> rexp option \<Rightarrow> error + storageDeviceProperties list" where
  "getStorageProperties e path ignore =
     (case Glob e path of
        Inl err \<Rightarrow> Inl err
      | Inr dirs \<Rightarrow> Inr (storage_loop e ignore [] dirs))"

subsection \<open>float64 arithmetic\<close>

text \<open>
  The float64 values are the numbers \<open>m * 2 ^ k\<close> with an integer \<open>m\<close> below \<open>2 ^ 53\<close> in
  absolute value and \<open>k\<close> from \<open>-1074\<close> on. Go rounds a real result to the nearest of
  them, and to the one with the even \<open>m\<close> when two are equally near.

  \<open>round_half_even\<close> rounds to the nearest integer, ties to the even one. A positive
  \<open>x\<close> is scaled by a power of two into the range from \<open>2 ^ 52\<close> to \<open>2 ^ 53\<close>, where
  the float64 values are the integers, rounded there and scaled back. \<open>scale_up\<close>
  doubles at most 1074 times: below \<open>2 ^ -1022\<close> the float64 values stay \<open>2 ^ -1074\<close>
  apart. \<open>scale_down\<close> halves at most 971 times: a value that is still \<open>2 ^ 53\<close> or
  more after that is beyond the largest float64, and outside the model.
\<close>

definition round_half_even :: "real \<Rightarrow> real" where
  "round_half_even x =
     (let f = \<lfloor>x\<rfloor> in
      if x - of_int f < 1 / 2 then of_int f
      else if 1 / 2 < x - of_int f then of_int f + 1
      else if even f then of_int f else of_int f + 1)"

fun scale_up :: "nat \<Rightarrow> real \<Rightarrow> real" where
  "scale_up 0 x = round_half_even x"
| "scale_up (Suc n) x = (if x < 2 ^ 52 then scale_up n (2 * x) / 2 else round_half_even x)"

fun scale_down :: "nat \<Rightarrow> real \<Rightarrow> real" where
  "scale_down 0 x = round_half_even x"
| "scale_down (Suc n) x = (if 2 ^ 53 \<le> x then 2 * scale_down n (x / 2) else round_half_even x)"

text \<open>
  \<open>float64 x\<close> is the float64 nearest to \<open>x\<close>: the value of the constant \<open>x\<close> in a
  float64 context, and the rounding of every result.
\<close>

definition float64 :: "real \<Rightarrow> real" where
  "float64 x =
     (if x = 0 then 0
      else if x < 0 then - (if 2 ^ 53 \<le> - x then scale_down 971 (- x) else scale_up 1074 (- x))
      else (if 2 ^ 53 \<le> x then scale_down 971 x else scale_up 1074 x))"

text \<open>The product \<^verbatim>\<open>x * y\<close> of two float64 values: the exact product, rounded.\<close>

definition mul64 :: "real \<Rightarrow> real \<Rightarrow> real" where
  "mul64 x y = float64 (x * y)"

subsection \<open>Metric descriptors and samples\<close>

text \<open>
  The Prometheus client library's descriptor (\<^verbatim>\<open>prometheus.NewDesc\<close>) and value types,
  and the metric sample that is sent to the channel, with the fields the collector
  sets.
\<close>

datatype ValueType = CounterValue | GaugeValue

type_synonym Labels = "string \<rightharpoonup> string"

record Desc =
  fqName :: string
  help_text :: string
  variableLabels :: "string list"
  constLabels :: Labels

record Metric =
  metric_desc :: Desc
  metric_valueType :: ValueType
  metric_value :: real
  metric_labelValues :: "string list"

definition BuildFQName :: "string \<Rightarrow> string \<Rightarrow> string \<Rightarrow> string" where
  "BuildFQName namespace subsystem name =
     (if name = [] then []
      else if namespace \<noteq> [] \<and> subsystem \<noteq> [] then namespace @ ''_'' @ subsystem @ ''_'' @ name
      else if namespace \<noteq> [] then namespace @ ''_'' @ name
      else if subsystem \<noteq> [] then subsystem @ ''_'' @ name
      else name)"

definition NewDesc :: "string \<Rightarrow> string \<Rightarrow> string list \<Rightarrow> Labels \<Rightarrow> Desc" where
  "NewDesc fq h vl cl = \<lparr>fqName = fq, help_text = h, variableLabels = vl, constLabels = cl\<rparr>"

text \<open>
  \<^verbatim>\<open>typedDesc\<close>, with the three fields that the struct literals of
  \<^verbatim>\<open>NewDiskstatsCollector\<close> set. A literal that leaves \<^verbatim>\<open>factor\<close> out leaves it at
  Go's zero value.
\<close>

record typedDesc =
  desc :: Desc
  valueType :: ValueType
  factor :: real

text \<open>
  Modelled from the spec: the method \<^verbatim>\<open>mustNewConstMetric\<close> of \<^verbatim>\<open>typedDesc\<close> is
  declared in a file of the package that is not among the sources. The spec gives a
  metric descriptor a name, a semantic kind, a label schema and a unit-conversion
  factor, and has the byte and time metrics carry the raw value times that factor; a
  descriptor without a factor carries the raw value. The value and the factor are
  \<^verbatim>\<open>float64\<close>, so the product is the float64 product.
\<close>

definition mustNewConstMetric :: "typedDesc \<Rightarrow> real \<Rightarrow> string list \<Rightarrow> Metric" where
  "mustNewConstMetric d v labels =
     \<lparr>metric_desc = desc d,
      metric_valueType = valueType d,
      metric_value = (if factor d \<noteq> 0 then mul64 v (factor d) else v),
      metric_labelValues = labels\<rparr>"

subsection \<open>The collector\<close>

record diskstatsCollector =
  ignoredDevicesPattern_re :: "rexp option"
  completed :: typedDesc
  merged :: typedDesc
  bytes :: typedDesc
  times_desc :: typedDesc
  ionow :: typedDesc
  iotime :: typedDesc
  iotimeweighted :: typedDesc
  storages :: typedDesc

text \<open>
  \<^verbatim>\<open>NewDiskstatsCollector\<close> returns the collector and the error \<^verbatim>\<open>nil\<close>, always. The
  constant \<^verbatim>\<open>.001\<close> of the source becomes the float64 nearest to it; \<^verbatim>\<open>diskSectorSize\<close>
  is a float64 as it is.
\<close>

definition NewDiskstatsCollector :: "Labels \<Rightarrow> diskstatsCollector" where
  "NewDiskstatsCollector labels =
     (let diskLabelNames = [''device'', ''type''] in
      \<lparr>ignoredDevicesPattern_re = Some ignoredDevicesPattern,
       completed =
         \<lparr>desc = NewDesc (BuildFQName ''node'' ''disk'' ''completed_total'')
            ''The total number of IO requests completed successfully of each type.''
            diskLabelNames labels,
          valueType = CounterValue, factor = 0\<rparr>,
       merged =
         \<lparr>desc = NewDesc (BuildFQName ''node'' ''disk'' ''merged_total'')
            ''The total number of merged IO requests of each type.''
            diskLabelNames labels,
          valueType = CounterValue, factor = 0\<rparr>,
       bytes =
         \<lparr>desc = NewDesc (BuildFQName ''node'' ''disk'' ''bytes_total'')
            ''The total number of bytes processed by IO requests of each type.''
            diskLabelNames labels,
          valueType = CounterValue, factor = diskSectorSize\<rparr>,
       times_desc =
         \<lparr>desc = NewDesc (BuildFQName ''node'' ''disk'' ''time_seconds_total'')
            ''The total number of seconds spent on all requests of each type.''
            diskLabelNames labels,
          valueType = CounterValue, factor = float64 0.001\<rparr>,
       ionow =
         \<lparr>desc = NewDesc (BuildFQName ''node'' ''disk'' ''io_now'')
            ''The number of I/Os currently in progress.''
            [''device''] labels,
          valueType = GaugeValue, factor = 0\<rparr>,
       iotime =
         \<lparr>desc = NewDesc (BuildFQName ''node'' ''disk'' ''io_time_seconds_total'')
            ''Total seconds spent doing I/Os.''
            [''device''] labels,
          valueType = CounterValue, factor = float64 0.001\<rparr>,
       iotimeweighted =
         \<lparr>desc = NewDesc (BuildFQName ''node'' ''disk'' ''io_time_weighted_seconds_total'')
            ''The weighted # of seconds spent doing I/Os.''
            [''device''] labels,
          valueType = CounterValue, factor = float64 0.001\<rparr>,
       storages =
         \<lparr>desc = NewDesc (BuildFQName ''node'' ''system'' ''storage_info'')
            ''Labeled information about storage devices present in the system.''
            [''device'', ''rotational'', ''scheduler''] labels,
          valueType = GaugeValue, factor = 0\<rparr>\<rparr>)"

text \<open>
  The body of the loop \<^verbatim>\<open>for dev, stat := range stats\<close> of \<^verbatim>\<open>Update\<close>: the samples
  sent to the channel for one device, in the order they are sent.
\<close>

definition update_device :: "diskstatsCollector \<Rightarrow> string \<Rightarrow> real list \<Rightarrow> Metric list" where
  "update_device c dev stat =
     (if length stat \<ge> 11 then
        [mustNewConstMetric (completed c) (stat ! 0) [dev, ''reads''],
         mustNewConstMetric (merged c) (stat ! 1) [dev, ''reads''],
         mustNewConstMetric (bytes c) (stat ! 2) [dev, ''reads''],
         mustNewConstMetric (times_desc c) (stat ! 3) [dev, ''reads''],
         mustNewConstMetric (completed c) (stat ! 4) [dev, ''writes''],
         mustNewConstMetric (merged c) (stat ! 5) [dev, ''writes''],
         mustNewConstMetric (bytes c) (stat ! 6) [dev, ''writes''],
         mustNewConstMetric (times_desc c) (stat ! 7) [dev, ''writes''],
         mustNewConstMetric (ionow c) (stat ! 8) [dev],
         mustNewConstMetric (iotime c) (stat ! 9) [dev],
         mustNewConstMetric (iotimeweighted c) (stat ! 10) [dev]]
      else []) @
     (if length stat \<ge> 15 then
        [mustNewConstMetric (completed c) (stat ! 11) [dev, ''discards''],
         mustNewConstMetric (merged c) (stat ! 12) [dev, ''discards''],
         mustNewConstMetric (bytes c) (stat ! 13) [dev, ''discards''],
         mustNewConstMetric (times_desc c) (stat ! 14) [dev, ''discards'']]
      else []) @
     (if length stat \<ge> 17 then
        [mustNewConstMetric (completed c) (stat ! 15) [dev, ''flush''],
         mustNewConstMetric (times_desc c) (stat ! 16) [dev, ''flush'']]
      else [])"

text \<open>
  Go leaves the order in which \<^verbatim>\<open>range\<close> visits the keys of a map open. \<open>order\<close>
  is the order of one run: \<open>range_order stats order\<close> says that it visits each key of
  \<open>stats\<close> once and nothing else.
\<close>

definition range_order :: "(string \<rightharpoonup> real list) \<Rightarrow> string list \<Rightarrow> bool" where
  "range_order stats order = (distinct order \<and> set order = dom stats)"

definition update_counters ::
  "diskstatsCollector \<Rightarrow> (string \<rightharpoonup> real list) \<Rightarrow> string list \<Rightarrow> Metric list" where
  "update_counters c stats order =
     concat (map (\<lambda>dev. case stats dev of None \<Rightarrow> [] | Some stat \<Rightarrow> update_device c dev stat) order)"

definition update_storages :: "diskstatsCollector \<Rightarrow> env \<Rightarrow> Metric list" where
  "update_storages c e =
     (case getStorageProperties e ''/sys/block/*'' (ignoredDevicesPattern_re c) of
        Inl err \<Rightarrow> []
      | Inr ss \<Rightarrow> map (\<lambda>s. mustNewConstMetric (storages c) 1 [device s, rotational s, scheduler s]) ss)"

text \<open>
  \<^verbatim>\<open>Update\<close> returns the error of the Go method together with the samples it has sent
  to the channel \<^verbatim>\<open>ch\<close>, in the order sent. Ranging over a \<^verbatim>\<open>nil\<close> map visits nothing.
\<close>

definition Update ::
  "diskstatsCollector \<Rightarrow> env \<Rightarrow> string list \<Rightarrow> error option \<times> Metric list" where
  "Update c e order =
     (case getDiskstats e (ignoredDevicesPattern_re c) of
        (stats, Some err) \<Rightarrow> (Some (Errorf ''get diskstats failed: '' (error_string err)), [])
      | (stats, None) \<Rightarrow>
          (None,
           update_counters c (case stats of None \<Rightarrow> Map.empty | Some m \<Rightarrow> m) order
           @ update_storages c e))"

subsection \<open>Notions used in the statements\<close>

text \<open>
  The device name that \<^verbatim>\<open>getStorageProperties\<close> takes from a path: the last of the
  parts between slashes.
\<close>

definition device_of_path :: "string \<Rightarrow> string" where
  "device_of_path devpath = (let parts = Split devpath ''/'' in parts ! (length parts - 1))"

text \<open>
  Every sample carries the device name as its first label value. The counter samples
  carry one or two label values (the device, and the type of request); a
  \<^verbatim>\<open>storage_info\<close> sample carries three.
\<close>

definition labelled :: "string \<Rightarrow> Metric \<Rightarrow> bool" where
  "labelled dev m = (case metric_labelValues m of [] \<Rightarrow> False | d # _ \<Rightarrow> d = dev)"

definition counter_samples :: "string \<Rightarrow> Metric list \<Rightarrow> Metric list" where
  "counter_samples dev ms = filter (\<lambda>m. labelled dev m \<and> length (metric_labelValues m) \<le> 2) ms"

text \<open>
  The finite float64 values: \<open>m * 2 ^ a / 2 ^ b\<close> in absolute value, with \<open>m\<close> below
  \<open>2 ^ 53\<close>, \<open>b\<close> at most 1074, and the whole below \<open>2 ^ 1024\<close>.
\<close>

definition is_float64 :: "real \<Rightarrow> bool" where
  "is_float64 x =
     (\<exists>(m::nat) (a::nat) (b::nat).
        \<bar>x\<bar> = real m * 2 ^ a / 2 ^ b \<and> m < 2 ^ 53 \<and> b \<le> 1074 \<and> \<bar>x\<bar> < 2 ^ 1024)"

text \<open>
  The classes \<^verbatim>\<open>\d\<close> and \<^verbatim>\<open>[a-z]\<close> as predicates, and the strings \<^verbatim>\<open>\d+\<close> matches in
  full: the non-empty strings of digits.
\<close>

definition is_digit :: "char \<Rightarrow> bool" where
  "is_digit c = in_class [(CHR ''0'', CHR ''9'')] c"

definition is_lower :: "char \<Rightarrow> bool" where
  "is_lower c = in_class [(CHR ''a'', CHR ''z'')] c"

definition digits :: "string \<Rightarrow> bool" where
  "digits ds = (ds \<noteq> [] \<and> list_all is_digit ds)"

text \<open>
  The language of a regular expression without anchors: the strings it matches in
  full. \<open>simple\<close> holds of the expressions the correspondence with \<open>matches\<close> is proved
  for: no anchor, and \<^verbatim>\<open>+\<close> only on a character class.
\<close>

fun lang :: "rexp \<Rightarrow> string set" where
  "lang (Lit w) = {w}"
| "lang (Cls rs) = {[c] | c. in_class rs c}"
| "lang (Seq r1 r2) = {u @ v | u v. u \<in> lang r1 \<and> v \<in> lang r2}"
| "lang (Alt r1 r2) = lang r1 \<union> lang r2"
| "lang (Plus r) = {concat ws | ws. ws \<noteq> [] \<and> set ws \<subseteq> lang r}"
| "lang Bol = {[]}"
| "lang Eol = {[]}"

fun simple :: "rexp \<Rightarrow> bool" where
  "simple (Lit w) = True"
| "simple (Cls rs) = True"
| "simple (Seq r1 r2) = (simple r1 \<and> simple r2)"
| "simple (Alt r1 r2) = (simple r1 \<and> simple r2)"
| "simple (Plus r) = (case r of Cls rs \<Rightarrow> True | _ \<Rightarrow> False)"
| "simple Bol = False"
| "simple Eol = False"

subsection \<open>Example inputs\<close>

text \<open>
  A stand-in for \<^verbatim>\<open>strconv.ParseFloat\<close> on the tokens of the examples: it reads an
  unsigned decimal integer and fails on every other token.
\<close>

fun decimal_value :: "nat \<Rightarrow> string \<Rightarrow> nat option" where
  "decimal_value acc [] = Some acc"
| "decimal_value acc (c # cs) =
     (if in_class [(CHR ''0'', CHR ''9'')] c
      then decimal_value (10 * acc + (of_char c - of_char (CHR ''0''))) cs
      else None)"

definition parse_decimal :: "string \<Rightarrow> real option" where
  "parse_decimal s = (if s = [] then None else map_option real (decimal_value 0 s))"

text \<open>
  A counters source with rows of 14, 18, 20 and 14 columns; the last device is a loop
  device.
\<close>

definition diskstats_example :: reader where
  "diskstats_example =
     \<lparr>scan_lines =
        [''   8       0 sda 4711 12 93842 1410 3306 1203 72216 9960 0 5120 11370'',
         '' 259       0 nvme0n1 15 0 1144 3 0 0 0 0 0 8 3 0 0 0 0'',
         ''   8      16 sdb 90 1 5200 40 7 2 64 12 0 36 52 3 0 2048 5 4 9'',
         ''   7       0 loop0 48 0 718 26 0 0 0 0 0 44 26''],
      scan_err = None\<rparr>"

text \<open>A source whose only row has 12 columns.\<close>

definition diskstats_short :: reader where
  "diskstats_short = \<lparr>scan_lines = [''   8       0 sda 4711 12 93842 1410 3306 1203 72216 9960 0''],
                       scan_err = None\<rparr>"

text \<open>The source of \<open>diskstats_example\<close>, read until the reader fails.\<close>

definition diskstats_unreadable :: reader where
  "diskstats_unreadable =
     diskstats_example\<lparr>scan_err := Some (Error ''read /proc/diskstats: input/output error'')\<rparr>"

text \<open>A source whose row for \<^verbatim>\<open>sda\<close> has one token that is not a number.\<close>

definition diskstats_corrupt :: reader where
  "diskstats_corrupt =
     \<lparr>scan_lines = [''   8       0 sda 4711 12 93842 14x10 3306 1203 72216 9960 0 5120 11370''],
      scan_err = None\<rparr>"

text \<open>The two-line source of the spec's scenario: \<^verbatim>\<open>sda\<close> and \<^verbatim>\<open>loop0\<close>, 14 tokens each.\<close>

definition diskstats_sda_loop0 :: reader where
  "diskstats_sda_loop0 =
     \<lparr>scan_lines =
        [''   8       0 sda 4711 12 93842 1410 3306 1203 72216 9960 0 5120 11370'',
         ''   7       0 loop0 48 0 718 26 0 0 0 0 0 44 26''],
      scan_err = None\<rparr>"

text \<open>
  An attribute tree: \<^verbatim>\<open>sda\<close> and \<^verbatim>\<open>nvme0n1\<close> have both attributes, \<^verbatim>\<open>loop0\<close> too but
  it is a loop device, the \<^verbatim>\<open>rotational\<close> of \<^verbatim>\<open>sdb\<close> reads 2, \<^verbatim>\<open>sdc\<close> has no
  \<^verbatim>\<open>scheduler\<close> file, \<^verbatim>\<open>sdd\<close> has no \<^verbatim>\<open>rotational\<close> file, and the \<^verbatim>\<open>scheduler\<close> of
  \<^verbatim>\<open>sde\<close> reads \<^verbatim>\<open>cfq]\<close>.
\<close>

definition sysfs_files :: "(string \<times> string) list" where
  "sysfs_files =
     [(''/sys/block/loop0/queue/rotational'', ''1'' @ [CHR 0x0A]),
      (''/sys/block/loop0/queue/scheduler'', ''[none] mq-deadline'' @ [CHR 0x0A]),
      (''/sys/block/nvme0n1/queue/rotational'', ''0'' @ [CHR 0x0A]),
      (''/sys/block/nvme0n1/queue/scheduler'', ''none'' @ [CHR 0x0A]),
      (''/sys/block/sda/queue/rotational'', ''1'' @ [CHR 0x0A]),
      (''/sys/block/sda/queue/scheduler'', ''noop [mq-deadline] kyber'' @ [CHR 0x0A]),
      (''/sys/block/sdb/queue/rotational'', ''2'' @ [CHR 0x0A]),
      (''/sys/block/sdb/queue/scheduler'', ''noop [mq-deadline] kyber'' @ [CHR 0x0A]),
      (''/sys/block/sdc/queue/rotational'', ''0'' @ [CHR 0x0A]),
      (''/sys/block/sdd/queue/scheduler'', ''noop [mq-deadline] kyber'' @ [CHR 0x0A]),
      (''/sys/block/sde/queue/rotational'', ''0'' @ [CHR 0x0A]),
      (''/sys/block/sde/queue/scheduler'', ''cfq]'' @ [CHR 0x0A])]"

definition example_env :: env where
  "example_env =
     \<lparr>Open = (\<lambda>p. if p = ''/proc/diskstats'' then Inr diskstats_example
                  else Inl (Error (''open '' @ p @ '': no such file or directory''))),
      Glob = (\<lambda>p. if p = ''/sys/block/*''
                  then Inr [''/sys/block/loop0'', ''/sys/block/nvme0n1'', ''/sys/block/sda'',
                            ''/sys/block/sdb'', ''/sys/block/sdc'', ''/sys/block/sdd'',
                            ''/sys/block/sde'']
                  else Inr []),
      ReadFile = (\<lambda>p. case map_of sysfs_files p of
                         Some content \<Rightarrow> Inr content
                       | None \<Rightarrow> Inl (Error (''open '' @ p @ '': no such file or directory''))),
      Clean = (\<lambda>p. p),
      ParseFloat = parse_decimal\<rparr>"

text \<open>
  Three variations of the example: the counters file cannot be opened, the counters
  file is the source with a row of 12 columns, and the glob fails.
\<close>

definition env_no_diskstats :: env where
  "env_no_diskstats = example_env\<lparr>Open := \<lambda>p. Inl (Error (''open '' @ p @ '': permission denied''))\<rparr>"

definition env_short :: env where
  "env_short = example_env\<lparr>Open := \<lambda>p. Inr diskstats_short\<rparr>"

definition env_no_glob :: env where
  "env_no_glob = example_env\<lparr>Glob := \<lambda>p. Inl (Error ''syntax error in pattern'')\<rparr>"

text \<open>
  The source of \<open>diskstats_corrupt\<close> in four variations: the reader fails after the
  row; a row of 12 columns follows; the row is the one of a loop device; the row is
  followed by a second row for \<^verbatim>\<open>sda\<close> whose tokens are all numbers.
\<close>

definition diskstats_corrupt_unreadable :: reader where
  "diskstats_corrupt_unreadable =
     diskstats_corrupt\<lparr>scan_err := Some (Error ''read /proc/diskstats: input/output error'')\<rparr>"

definition diskstats_corrupt_short :: reader where
  "diskstats_corrupt_short =
     \<lparr>scan_lines = [''   8       0 sda 4711 12 93842 14x10 3306 1203 72216 9960 0 5120 11370'',
                    ''   8      16 sdb 90 1 5200 40 7 2 64 12 0''],
      scan_err = None\<rparr>"

definition diskstats_corrupt_loop0 :: reader where
  "diskstats_corrupt_loop0 =
     \<lparr>scan_lines = [''   7       0 loop0 48 0 718 2x6 0 0 0 0 0 44 26''],
      scan_err = None\<rparr>"

definition diskstats_corrupt_twice :: reader where
  "diskstats_corrupt_twice =
     \<lparr>scan_lines = [''   8       0 sda 4711 12 93842 14x10 3306 1203 72216 9960 0 5120 11370'',
                    ''   8       0 sda 4711 12 93842 1410 3306 1203 72216 9960 0 5120 11370''],
      scan_err = None\<rparr>"

text \<open>
  A source that lists the twenty-seventh SCSI disk, \<^verbatim>\<open>sdaa\<close>, and its first partition.
\<close>

definition diskstats_sdaa :: reader where
  "diskstats_sdaa =
     \<lparr>scan_lines =
        [''  65     160 sdaa 4711 12 93842 1410 3306 1203 72216 9960 0 5120 11370'',
         ''  65     161 sdaa1 48 0 718 26 0 0 0 0 0 44 26''],
      scan_err = None\<rparr>"

text \<open>
  A counter map with vectors of 10, 11, 14, 15, 16 and 17 entries, and an order in
  which \<^verbatim>\<open>range\<close> may visit it.
\<close>

definition stats_lengths :: "string \<rightharpoonup> real list" where
  "stats_lengths =
     [''sda'' \<mapsto> replicate 10 1, ''sdb'' \<mapsto> replicate 11 1, ''sdc'' \<mapsto> replicate 14 1,
      ''sdd'' \<mapsto> replicate 15 1, ''sde'' \<mapsto> replicate 16 1, ''sdf'' \<mapsto> replicate 17 1]"

definition order_lengths :: "string list" where
  "order_lengths = [''sdd'', ''sda'', ''sdf'', ''sdc'', ''sdb'', ''sde'']"

section \<open>Properties\<close>

subsection \<open>float64 rounding\<close>

text \<open>The float64 nearest to 0.001, and a product with it that rounds up.\<close>

lemma float64_001: "float64 0.001 = 1152921504606847 / 2 ^ 60"
  by (simp add: float64_def round_half_even_def eval_nat_numeral)

lemma mul64_36: "mul64 36 (1152921504606847 / 2 ^ 60) = 5188146770730812 / 2 ^ 57"
  by (simp add: mul64_def float64_def round_half_even_def eval_nat_numeral)

lemma round_half_even_of_nat: "round_half_even (real m) = real m"
  by (simp add: round_half_even_def)

lemma scale_up_exact:
  "x = real m / 2 ^ j \<Longrightarrow> m < 2 ^ 53 \<Longrightarrow> j \<le> n \<Longrightarrow> scale_up n x = x"
proof (induction n arbitrary: x m j)
  case 0
  then show ?case by (simp add: round_half_even_of_nat)
next
  case (Suc n)
  show ?case
  proof (cases "x < 2 ^ 52")
    case True
    have "scale_up n (2 * x) = 2 * x"
    proof (cases j)
      case 0
      with Suc.prems(1) have x: "x = real m" by simp
      with True have "real m < 2 ^ 52" by simp
      then have "m < 2 ^ 52" by (metis of_nat_less_numeral_power_cancel_iff)
      then have "2 * m < 2 ^ 53" by simp
      moreover have "2 * x = real (2 * m) / 2 ^ 0" using x by simp
      ultimately show ?thesis using Suc.IH[of "2 * x" "2 * m" 0] by blast
    next
      case (Suc j0)
      with Suc.prems(1) have "2 * x = real m / 2 ^ j0" by simp
      moreover from Suc Suc.prems(3) have "j0 \<le> n" by simp
      ultimately show ?thesis using Suc.IH[of "2 * x" m j0] Suc.prems(2) by blast
    qed
    with True show ?thesis by simp
  next
    case False
    have "j = 0"
    proof (rule ccontr)
      assume "j \<noteq> 0"
      then obtain j0 where j: "j = Suc j0" by (cases j) auto
      have "real m < 2 ^ 53" using Suc.prems(2) by (metis of_nat_less_numeral_power_cancel_iff)
      then have "real m / 2 ^ j < 2 ^ 53 / 2 ^ j" by (simp add: divide_strict_right_mono)
      also have "\<dots> \<le> 2 ^ 53 / (2::real) ^ 1" unfolding j
        by (intro divide_left_mono) (simp_all add: power_increasing)
      also have "\<dots> = (2::real) ^ 52" by simp
      finally show False using False Suc.prems(1) by simp
    qed
    with Suc.prems(1) have "x = real m" by simp
    with False show ?thesis by (simp add: round_half_even_of_nat)
  qed
qed

lemma scale_down_exact:
  "x = real m * 2 ^ a \<Longrightarrow> m < 2 ^ 53 \<Longrightarrow> x < 2 ^ (53 + n) \<Longrightarrow> scale_down n x = x"
proof (induction n arbitrary: x a)
  case 0
  have "x = real (m * 2 ^ a)" using 0(1) by simp
  then show ?case by (simp only: scale_down.simps round_half_even_of_nat)
next
  case (Suc n)
  have nat: "x = real (m * 2 ^ a)" using Suc.prems(1) by simp
  show ?case
  proof (cases "2 ^ 53 \<le> x")
    case True
    have "a \<noteq> 0"
    proof
      assume "a = 0"
      with Suc.prems(1) have "x = real m" by simp
      moreover have "real m < 2 ^ 53" using Suc.prems(2) by (metis of_nat_less_numeral_power_cancel_iff)
      ultimately show False using True by simp
    qed
    then obtain a0 where a: "a = Suc a0" by (cases a) auto
    with Suc.prems(1) have h: "x / 2 = real m * 2 ^ a0" by simp
    have "(2::real) ^ (53 + Suc n) = 2 * 2 ^ (53 + n)" by (simp only: add_Suc_right power_Suc)
    with Suc.prems(3) have "x / 2 < 2 ^ (53 + n)" by linarith
    from Suc.IH[OF h Suc.prems(2) this] True show ?thesis by simp
  next
    case False
    then show ?thesis by (simp only: scale_down.simps if_False nat round_half_even_of_nat)
  qed
qed

lemma float64_exact_pos:
  assumes "0 < x" and "x = real m * 2 ^ a / 2 ^ b" and "m < 2 ^ 53" and "b \<le> 1074" and "x < 2 ^ 1024"
  shows "(if 2 ^ 53 \<le> x then scale_down 971 x else scale_up 1074 x) = x"
proof (cases "a \<le> b")
  case True
  then have e: "x = real m / 2 ^ (b - a)"
    using assms(2) by (simp add: power_diff)
  have "real m < 2 ^ 53" using assms(3) by (metis of_nat_less_numeral_power_cancel_iff)
  moreover have "real m / 2 ^ (b - a) \<le> real m" by (simp add: divide_le_eq_1 field_simps)
      (metis mult.commute mult_le_cancel_left1 of_nat_0_le_iff one_le_numeral one_le_power mult_left_mono mult.right_neutral)
  ultimately have "x < 2 ^ 53" using e by simp
  moreover have "scale_up 1074 x = x"
    by (rule scale_up_exact[OF e assms(3)]) (use assms(4) in simp)
  ultimately show ?thesis by simp
next
  case False
  then have e: "x = real m * 2 ^ (a - b)"
    using assms(2) by (simp add: power_diff)
  show ?thesis
  proof (cases "2 ^ 53 \<le> x")
    case True
    have "scale_down 971 x = x"
      by (rule scale_down_exact[OF e assms(3)]) (use assms(5) in simp)
    with True show ?thesis by simp
  next
    case False
    have n: "x = real (m * 2 ^ (a - b)) / 2 ^ 0" using e by simp
    from False have "real (m * 2 ^ (a - b)) < 2 ^ 53" using e by simp
    then have "m * 2 ^ (a - b) < 2 ^ 53" by (metis of_nat_less_numeral_power_cancel_iff)
    from scale_up_exact[OF n this] False show ?thesis by simp
  qed
qed

lemma float64_exact: "is_float64 x \<Longrightarrow> float64 x = x"
proof -
  assume "is_float64 x"
  then obtain m a b where r: "\<bar>x\<bar> = real m * 2 ^ a / 2 ^ b" "m < 2 ^ 53" "b \<le> 1074" "\<bar>x\<bar> < 2 ^ 1024"
    unfolding is_float64_def by blast
  consider "x = 0" | "0 < x" | "x < 0" by linarith
  then show ?thesis
  proof cases
    case 1
    then show ?thesis by (simp add: float64_def)
  next
    case 2
    with r have "x = real m * 2 ^ a / 2 ^ b" "x < 2 ^ 1024" by simp_all
    from float64_exact_pos[OF 2 this(1) r(2,3) this(2)] 2 show ?thesis
      by (simp add: float64_def)
  next
    case 3
    with r have "- x = real m * 2 ^ a / 2 ^ b" "- x < 2 ^ 1024" "0 < - x" by simp_all
    from float64_exact_pos[OF this(3) this(1) r(2,3) this(2)] 3 show ?thesis
      by (simp add: float64_def)
  qed
qed

lemma mul64_512_exact:
  assumes "is_float64 x" and "\<bar>x * 512\<bar> < 2 ^ 1024"
  shows "mul64 x 512 = x * 512"
proof -
  from assms(1) obtain m a b where r: "\<bar>x\<bar> = real m * 2 ^ a / 2 ^ b" "m < 2 ^ 53" "b \<le> 1074"
    unfolding is_float64_def by blast
  have "\<bar>x * 512\<bar> = real m * 2 ^ (a + 9) / 2 ^ b"
    using r(1) by (simp add: abs_mult power_add)
  with r(2,3) assms(2) have "is_float64 (x * 512)" unfolding is_float64_def by blast
  then show ?thesis unfolding mul64_def by (rule float64_exact)
qed

text \<open>
  The rounding error: half a unit in the last place, or \<open>2 ^ -1075\<close> among the
  subnormal values.
\<close>

lemma round_half_even_error: "\<bar>round_half_even x - x\<bar> \<le> 1 / 2"
  unfolding round_half_even_def Let_def by (auto simp: abs_if) linarith+

lemma scale_up_error:
  "0 < x \<Longrightarrow> \<bar>scale_up n x - x\<bar> \<le> x / 2 ^ 53 + 1 / 2 ^ Suc n"
proof (induction n arbitrary: x)
  case 0
  have "\<bar>round_half_even x - x\<bar> \<le> 1 / 2" by (rule round_half_even_error)
  moreover have "0 \<le> x / 2 ^ 53" using 0 by simp
  ultimately show ?case by simp
next
  case (Suc n)
  show ?case
  proof (cases "x < 2 ^ 52")
    case True
    from Suc.prems have "0 < 2 * x" by simp
    from Suc.IH[OF this] have "\<bar>scale_up n (2 * x) - 2 * x\<bar> \<le> 2 * x / 2 ^ 53 + 1 / 2 ^ Suc n" .
    moreover have "\<bar>scale_up n (2 * x) / 2 - x\<bar> = \<bar>scale_up n (2 * x) - 2 * x\<bar> / 2"
      by (simp add: abs_if field_simps)
    ultimately have "\<bar>scale_up n (2 * x) / 2 - x\<bar> \<le> (2 * x / 2 ^ 53 + 1 / 2 ^ Suc n) / 2"
      by simp
    also have "\<dots> = x / 2 ^ 53 + 1 / 2 ^ Suc (Suc n)" by (simp add: field_simps)
    finally show ?thesis using True by simp
  next
    case False
    have "\<bar>round_half_even x - x\<bar> \<le> 1 / 2" by (rule round_half_even_error)
    moreover have "1 / 2 \<le> x / 2 ^ 53" using False by simp
    moreover have "0 \<le> 1 / (2::real) ^ Suc (Suc n)" by simp
    ultimately have "\<bar>round_half_even x - x\<bar> \<le> x / 2 ^ 53 + 1 / 2 ^ Suc (Suc n)" by linarith
    moreover have "scale_up (Suc n) x = round_half_even x" using False by simp
    ultimately show ?thesis by (simp only:)
  qed
qed

lemma scale_down_error:
  "2 ^ 52 \<le> x \<Longrightarrow> \<bar>scale_down n x - x\<bar> \<le> x / 2 ^ 53"
proof (induction n arbitrary: x)
  case 0
  have "\<bar>round_half_even x - x\<bar> \<le> 1 / 2" by (rule round_half_even_error)
  moreover have "1 / 2 \<le> x / 2 ^ 53" using 0 by simp
  ultimately show ?case by simp
next
  case (Suc n)
  show ?case
  proof (cases "2 ^ 53 \<le> x")
    case True
    then have "2 ^ 52 \<le> x / 2" by simp
    from Suc.IH[OF this] have "\<bar>scale_down n (x / 2) - x / 2\<bar> \<le> x / 2 / 2 ^ 53" .
    moreover have "\<bar>2 * scale_down n (x / 2) - x\<bar> = 2 * \<bar>scale_down n (x / 2) - x / 2\<bar>"
      by (simp add: abs_if)
    ultimately have "\<bar>2 * scale_down n (x / 2) - x\<bar> \<le> x / 2 ^ 53" by simp
    then show ?thesis using True by simp
  next
    case False
    have "\<bar>round_half_even x - x\<bar> \<le> 1 / 2" by (rule round_half_even_error)
    moreover have "1 / 2 \<le> x / 2 ^ 53" using Suc.prems by simp
    ultimately show ?thesis using False by simp
  qed
qed

lemma float64_error_pos:
  assumes "0 < x"
  shows "\<bar>(if 2 ^ 53 \<le> x then scale_down 971 x else scale_up 1074 x) - x\<bar> \<le> x / 2 ^ 53 + 1 / 2 ^ 1075"
proof (cases "2 ^ 53 \<le> x")
  case True
  then have "2 ^ 52 \<le> x" by simp
  from scale_down_error[OF this, of 971] True show ?thesis by simp
next
  case False
  from scale_up_error[OF assms, of 1074] False show ?thesis by simp
qed

lemma float64_error: "\<bar>float64 x - x\<bar> \<le> \<bar>x\<bar> / 2 ^ 53 + 1 / 2 ^ 1075"
proof -
  consider "x = 0" | "0 < x" | "x < 0" by linarith
  then show ?thesis
  proof cases
    case 1
    then show ?thesis by (simp add: float64_def)
  next
    case 2
    from float64_error_pos[OF 2] 2 show ?thesis by (simp add: float64_def)
  next
    case 3
    then have "0 < - x" by simp
    from float64_error_pos[OF this] 3 show ?thesis by (simp add: float64_def abs_if split: if_splits)
  qed
qed

lemma mul64_001_error:
  "\<bar>mul64 x (float64 0.001) - x * 0.001\<bar> \<le> \<bar>x\<bar> * 0.001 / 2 ^ 52 + 1 / 2 ^ 1075"
proof -
  define f :: real where "f = 1152921504606847 / 2 ^ 60"
  define A where "A = \<bar>float64 (x * f) - x * f\<bar>"
  define B where "B = \<bar>x * f - x * 0.001\<bar>"
  define C where "C = \<bar>float64 (x * f) - x * 0.001\<bar>"
  define P where "P = \<bar>x\<bar> * (f / 2 ^ 53)"
  define Q where "Q = \<bar>x\<bar> * (f - 0.001)"
  define R where "R = \<bar>x\<bar> * (0.001 / 2 ^ 52)"
  define S :: real where "S = 1 / 2 ^ 1075"
  have f0: "0 \<le> f" and f1: "0 \<le> f - 0.001" and f2: "f / 2 ^ 53 + (f - 0.001) \<le> 0.001 / 2 ^ 52"
    unfolding f_def by simp_all
  have "\<bar>x * f\<bar> / 2 ^ 53 = P"
    unfolding P_def using f0 by (simp add: abs_mult)
  with float64_error[of "x * f"] have 1: "A \<le> P + S" unfolding A_def S_def by simp
  have "x * f - x * 0.001 = x * (f - 0.001)" by (simp only: right_diff_distrib)
  then have 2: "B = Q" unfolding B_def Q_def using f1 by (simp only: abs_mult abs_of_nonneg)
  have "P + Q = \<bar>x\<bar> * (f / 2 ^ 53 + (f - 0.001))" unfolding P_def Q_def by (simp only: distrib_left)
  also have "\<dots> \<le> R" unfolding R_def using f2 by (intro mult_left_mono) simp_all
  finally have 3: "P + Q \<le> R" .
  have 4: "C \<le> A + B" unfolding A_def B_def C_def by linarith
  from 1 2 3 4 have "C \<le> R + S" by linarith
  then show ?thesis
    unfolding C_def R_def S_def mul64_def float64_001 f_def by simp
qed

lemma float64_001_neq: "float64 (1 / 1000) \<noteq> 0"
  using float64_001 by simp

lemma float64_001_simp: "float64 (1 / 1000) = 1152921504606847 / 2 ^ 60"
  using float64_001 by simp

lemma mul64_example:
  "mul64 5200 512 = 2662400"
  "mul64 64 512 = 32768"
  "mul64 2048 512 = 1048576"
  "mul64 40 (float64 (1 / 1000)) = 5764607523034235 / 2 ^ 57"
  "mul64 12 (float64 (1 / 1000)) = 3458764513820541 / 2 ^ 58"
  "mul64 36 (float64 (1 / 1000)) = 1297036692682703 / 2 ^ 55"
  "mul64 52 (float64 (1 / 1000)) = 3746994889972253 / 2 ^ 56"
  "mul64 5 (float64 (1 / 1000)) = 5764607523034235 / 2 ^ 60"
  "mul64 9 (float64 (1 / 1000)) = 1297036692682703 / 2 ^ 57"
  unfolding float64_001_simp
  by (simp_all add: mul64_def float64_def round_half_even_def eval_nat_numeral)

lemma float64_036: "float64 (36 * 0.001) = 5188146770730811 / 2 ^ 57"
  by (simp add: float64_def round_half_even_def eval_nat_numeral)

subsection \<open>The inner loop of the parser\<close>

lemma parse_stat_fold:
  "k \<le> n \<Longrightarrow> length stat = n \<Longrightarrow>
   length (foldl (\<lambda>stat i. case pf (vs ! (i + 3)) of None \<Rightarrow> stat | Some v \<Rightarrow> stat[i := v])
             stat [0 ..< k]) = n
   \<and> (\<forall>i < n. foldl (\<lambda>stat i. case pf (vs ! (i + 3)) of None \<Rightarrow> stat | Some v \<Rightarrow> stat[i := v])
                 stat [0 ..< k] ! i
        = (if i < k then (case pf (vs ! (i + 3)) of None \<Rightarrow> stat ! i | Some v \<Rightarrow> v) else stat ! i))"
proof (induction k)
  case 0
  then show ?case by simp
next
  case (Suc k)
  then show ?case
    by (auto simp: nth_list_update less_Suc_eq split: option.splits)
qed

lemma length_parse_stat: "length (parse_stat pf vs) = length vs - 3"
  unfolding parse_stat_def
  using parse_stat_fold[of "length vs - 3" "length vs - 3" "replicate (length vs - 3) 0" pf vs]
  by simp

lemma nth_parse_stat:
  "i < length vs - 3 \<Longrightarrow>
   parse_stat pf vs ! i = (case pf (vs ! (i + 3)) of None \<Rightarrow> 0 | Some v \<Rightarrow> v)"
  unfolding parse_stat_def
  using parse_stat_fold[of "length vs - 3" "length vs - 3" "replicate (length vs - 3) 0" pf vs]
  by (auto split: option.splits)

subsection \<open>The outer loop of the parser\<close>

lemma parse_lines_invalid:
  "\<exists>l \<in> set lines. length (Fields l) \<notin> {14, 18, 20} \<Longrightarrow>
   \<exists>l \<in> set lines. length (Fields l) \<notin> {14, 18, 20} \<and>
     parse_lines pf ig stats lines err =
       (None, Some (Errorf ''invalid /proc/diskstats file, too few columns in line: '' l))"
proof (induction lines arbitrary: stats)
  case Nil
  then show ?case by simp
next
  case (Cons l lines)
  show ?case
  proof (cases "length (Fields l) \<notin> {14, 18, 20}")
    case True
    then show ?thesis by (auto simp: Let_def)
  next
    case False
    with Cons.prems have "\<exists>l \<in> set lines. length (Fields l) \<notin> {14, 18, 20}" by auto
    from Cons.IH[OF this] False show ?thesis by (auto simp: Let_def)
  qed
qed

lemma parse_lines_valid:
  "\<forall>l \<in> set lines. length (Fields l) \<in> {14, 18, 20} \<Longrightarrow>
   \<exists>stats'. parse_lines pf ig stats lines err = (Some stats', err)"
  by (induction lines arbitrary: stats) (auto simp: Let_def)

lemma parse_lines_entries:
  "parse_lines pf ig stats lines err = (Some stats', err') \<Longrightarrow> stats' d = Some v \<Longrightarrow>
   stats d = Some v \<or>
   (\<exists>l \<in> set lines. length (Fields l) \<in> {14, 18, 20} \<and> Fields l ! 2 = d \<and> \<not> ignored ig d \<and>
      v = parse_stat pf (Fields l))"
proof (induction lines arbitrary: stats)
  case Nil
  then show ?case by simp
next
  case (Cons l lines)
  then show ?case
    by (fastforce simp: Let_def split: if_splits)
qed

lemma parse_lines_ignored:
  "parse_lines pf ig stats lines err = (Some stats', err') \<Longrightarrow> ignored ig d \<Longrightarrow>
   stats' d = stats d"
proof (induction lines arbitrary: stats)
  case Nil
  then show ?case by simp
next
  case (Cons l lines)
  then show ?case
    by (fastforce simp: Let_def split: if_splits)
qed

lemma parse_lines_other:
  "parse_lines pf ig stats lines err = (Some stats', err') \<Longrightarrow>
   \<forall>l \<in> set lines. Fields l ! 2 \<noteq> d \<Longrightarrow> stats' d = stats d"
proof (induction lines arbitrary: stats)
  case Nil
  then show ?case by simp
next
  case (Cons l lines)
  then show ?case
    by (fastforce simp: Let_def split: if_splits)
qed

lemma parse_lines_append:
  "parse_lines pf ig stats (xs @ ys) err =
     (case parse_lines pf ig stats xs err of
        (Some stats', _) \<Rightarrow> parse_lines pf ig stats' ys err
      | (None, e) \<Rightarrow> (None, e))"
  by (induction xs arbitrary: stats) (auto simp: Let_def)

lemma parse_lines_last:
  assumes "\<forall>l \<in> set (pre @ [l0] @ post). length (Fields l) \<in> {14, 18, 20}"
    and "\<not> ignored ig (Fields l0 ! 2)"
    and "\<forall>l \<in> set post. Fields l ! 2 \<noteq> Fields l0 ! 2"
  shows "\<exists>stats'. parse_lines pf ig stats (pre @ [l0] @ post) err = (Some stats', err) \<and>
           stats' (Fields l0 ! 2) = Some (parse_stat pf (Fields l0))"
proof -
  from assms(1) have vpre: "\<forall>l \<in> set pre. length (Fields l) \<in> {14, 18, 20}"
    and v0: "length (Fields l0) \<in> {14, 18, 20}"
    and vpost: "\<forall>l \<in> set post. length (Fields l) \<in> {14, 18, 20}" by auto
  from parse_lines_valid[OF vpre] obtain s1 where
    s1: "parse_lines pf ig stats pre err = (Some s1, err)"
    by blast
  from parse_lines_valid[OF vpost] obtain s2 where
    s2: "parse_lines pf ig (s1(Fields l0 ! 2 \<mapsto> parse_stat pf (Fields l0))) post err = (Some s2, err)"
    by blast
  from parse_lines_other[OF s2 assms(3)]
  have "s2 (Fields l0 ! 2) = Some (parse_stat pf (Fields l0))"
    by simp
  moreover have "parse_lines pf ig stats (pre @ [l0] @ post) err = (Some s2, err)"
    using s1 s2 v0 assms(2) by (auto simp: parse_lines_append Let_def)
  ultimately show ?thesis by blast
qed

subsection \<open>Evaluation of the examples\<close>

lemmas eval_Fields = Fields_def space_width_def asciiSpace_def

lemmas eval_regexp = ignored_def MatchString_def Find_def ignoredDevicesPattern_def digit_def
  in_class_def

lemmas eval_parse = parseDiskstats_def Let_def parse_stat_def parse_decimal_def
  upt_rec[of _ "numeral _"] upt_rec[of _ "Suc _"]

lemma diskstats_example_widths:
  "map (\<lambda>l. length (Fields l)) (scan_lines diskstats_example) = [14, 18, 20, 14]"
  by (simp add: diskstats_example_def eval_Fields)

lemma diskstats_example_parsed:
  "parseDiskstats parse_decimal diskstats_example (Some ignoredDevicesPattern) =
     (Some [''sda'' \<mapsto> [4711, 12, 93842, 1410, 3306, 1203, 72216, 9960, 0, 5120, 11370],
            ''nvme0n1'' \<mapsto> [15, 0, 1144, 3, 0, 0, 0, 0, 0, 8, 3, 0, 0, 0, 0],
            ''sdb'' \<mapsto> [90, 1, 5200, 40, 7, 2, 64, 12, 0, 36, 52, 3, 0, 2048, 5, 4, 9]],
      None)"
  by (simp add: diskstats_example_def eval_Fields eval_regexp eval_parse)

lemma diskstats_short_widths:
  "map (\<lambda>l. length (Fields l)) (scan_lines diskstats_short) = [12]"
  by (simp add: diskstats_short_def eval_Fields)

subsection \<open>Row widths\<close>

text \<open>
  C1 (amended). For every input of \<^verbatim>\<open>parseDiskstats\<close>: it returns no error if and only
  if every line has 14, 18 or 20 white-space separated tokens and the scanner reports
  no error. When every line has such a width, the map is returned together with the
  scanner's error, if any. A line of any other width makes the parse return a
  \<^verbatim>\<open>nil\<close> map and the error that quotes the line. In a returned map, every device maps to
  a vector whose length is the width of one of its lines less 3.
\<close>

theorem parseDiskstats_widths:
  "((snd (parseDiskstats pf r ig) = None) =
      ((\<forall>l \<in> set (scan_lines r). length (Fields l) \<in> {14, 18, 20}) \<and> scan_err r = None))
   \<and> ((\<forall>l \<in> set (scan_lines r). length (Fields l) \<in> {14, 18, 20}) \<longrightarrow>
        (\<exists>stats. parseDiskstats pf r ig = (Some stats, scan_err r)))
   \<and> ((\<exists>l \<in> set (scan_lines r). length (Fields l) \<notin> {14, 18, 20}) \<longrightarrow>
        (\<exists>l \<in> set (scan_lines r). length (Fields l) \<notin> {14, 18, 20} \<and>
           parseDiskstats pf r ig =
             (None, Some (Errorf ''invalid /proc/diskstats file, too few columns in line: '' l))))
   \<and> (\<forall>stats err d v. parseDiskstats pf r ig = (Some stats, err) \<and> stats d = Some v \<longrightarrow>
        (\<exists>l \<in> set (scan_lines r). Fields l ! 2 = d \<and> length (Fields l) \<in> {14, 18, 20} \<and>
           length v = length (Fields l) - 3))"
proof -
  let ?valid = "\<forall>l \<in> set (scan_lines r). length (Fields l) \<in> {14, 18, 20}"
  have ok: "\<exists>stats. parseDiskstats pf r ig = (Some stats, scan_err r)" if ?valid
    using parse_lines_valid[OF that] unfolding parseDiskstats_def by blast
  have bad: "\<exists>l \<in> set (scan_lines r). length (Fields l) \<notin> {14, 18, 20} \<and>
           parseDiskstats pf r ig =
             (None, Some (Errorf ''invalid /proc/diskstats file, too few columns in line: '' l))"
    if "\<not> ?valid"
    using parse_lines_invalid[of "scan_lines r" pf ig Map.empty "scan_err r"] that
    unfolding parseDiskstats_def by blast
  have iff: "(snd (parseDiskstats pf r ig) = None) = (?valid \<and> scan_err r = None)"
  proof (cases ?valid)
    case True
    from ok[OF True] show ?thesis using True by auto
  next
    case False
    from bad[OF False] show ?thesis using False by auto
  qed
  have len: "\<exists>l \<in> set (scan_lines r). Fields l ! 2 = d \<and> length (Fields l) \<in> {14, 18, 20} \<and>
           length v = length (Fields l) - 3"
    if "parseDiskstats pf r ig = (Some stats, err)" "stats d = Some v" for stats err d v
    using parse_lines_entries[of pf ig Map.empty "scan_lines r" "scan_err r" stats err d v] that
    unfolding parseDiskstats_def by (auto simp: length_parse_stat)
  from iff ok bad len show ?thesis by blast
qed

text \<open>
  The theorem at the example source (rows of 14, 18, 20 and 14 columns, no error: the
  vectors of \<^verbatim>\<open>sda\<close>, \<^verbatim>\<open>nvme0n1\<close> and \<^verbatim>\<open>sdb\<close> have 11, 15 and 17 entries) and at the
  source with a row of 12 columns (an error and no map).
\<close>

theorem parseDiskstats_widths_witness:
  "snd (parseDiskstats parse_decimal diskstats_example (Some ignoredDevicesPattern)) = None \<and>
   (\<exists>stats u v w. parseDiskstats parse_decimal diskstats_example (Some ignoredDevicesPattern)
        = (Some stats, None) \<and>
      stats ''sda'' = Some u \<and> length u = 11 \<and> stats ''nvme0n1'' = Some v \<and> length v = 15 \<and>
      stats ''sdb'' = Some w \<and> length w = 17) \<and>
   fst (parseDiskstats parse_decimal diskstats_short (Some ignoredDevicesPattern)) = None \<and>
   snd (parseDiskstats parse_decimal diskstats_short (Some ignoredDevicesPattern)) \<noteq> None"
proof -
  have v: "\<forall>l \<in> set (scan_lines diskstats_example). length (Fields l) \<in> {14, 18, 20}"
    using diskstats_example_widths by (simp add: diskstats_example_def)
  have e: "scan_err diskstats_example = None" by (simp add: diskstats_example_def)
  have s: "\<exists>l \<in> set (scan_lines diskstats_short). length (Fields l) \<notin> {14, 18, 20}"
    using diskstats_short_widths by (simp add: diskstats_short_def)
  from parseDiskstats_widths[of parse_decimal diskstats_example "Some ignoredDevicesPattern"] v e
  have 1: "snd (parseDiskstats parse_decimal diskstats_example (Some ignoredDevicesPattern)) = None"
    by simp
  from parseDiskstats_widths[of parse_decimal diskstats_short "Some ignoredDevicesPattern"] s
  have 2: "fst (parseDiskstats parse_decimal diskstats_short (Some ignoredDevicesPattern)) = None \<and>
    snd (parseDiskstats parse_decimal diskstats_short (Some ignoredDevicesPattern)) \<noteq> None"
    by auto
  from 1 2 show ?thesis by (simp add: diskstats_example_parsed)
qed

text \<open>
  The claim as stated fails where the scanner reports an error: every line of
  \<open>diskstats_unreadable\<close> has a valid width, and the parse returns the reader's error.
\<close>

theorem parseDiskstats_widths_counterexample:
  "list_all (\<lambda>l. length (Fields l) \<in> {14, 18, 20}) (scan_lines diskstats_unreadable) \<and>
   snd (parseDiskstats parse_decimal diskstats_unreadable None)
     = Some (Error ''read /proc/diskstats: input/output error'')"
  by (simp add: diskstats_unreadable_def diskstats_example_def eval_Fields eval_regexp eval_parse)

lemma diskstats_corrupt_fields:
  "Fields ''   8       0 sda 4711 12 93842 14x10 3306 1203 72216 9960 0 5120 11370'' =
     [''8'', ''0'', ''sda'', ''4711'', ''12'', ''93842'', ''14x10'', ''3306'', ''1203'', ''72216'',
      ''9960'', ''0'', ''5120'', ''11370'']"
  by (simp add: eval_Fields)

subsection \<open>A token that is not a number\<close>

text \<open>
  C9 (amended). Take a source whose lines all have a valid width, and a line \<open>l\<close> of
  it whose device is not excluded and is not listed again on a later line (the later
  line would overwrite the row). Then the parse returns a map, together with the
  scanner's own error if there is one and with no error otherwise; the device of
  \<open>l\<close> is in the map; its vector has one entry for each token after the third; and
  each entry is the value of its token where \<^verbatim>\<open>ParseFloat\<close> succeeds and 0 where it
  fails, whatever happens to the other tokens.
\<close>

theorem parseDiskstats_field_failure:
  assumes "scan_lines r = pre @ [l] @ post"
    and "\<forall>l' \<in> set (scan_lines r). length (Fields l') \<in> {14, 18, 20}"
    and "\<not> ignored ig (Fields l ! 2)"
    and "\<forall>l' \<in> set post. Fields l' ! 2 \<noteq> Fields l ! 2"
  shows "\<exists>stats stat. parseDiskstats pf r ig = (Some stats, scan_err r) \<and>
           stats (Fields l ! 2) = Some stat \<and>
           length stat = length (Fields l) - 3 \<and>
           (\<forall>i < length stat.
              stat ! i = (case pf (Fields l ! (i + 3)) of None \<Rightarrow> 0 | Some v \<Rightarrow> v))"
proof -
  from assms(1,2) have "\<forall>l' \<in> set (pre @ [l] @ post). length (Fields l') \<in> {14, 18, 20}"
    by simp
  from parse_lines_last[OF this assms(3,4), of pf Map.empty "scan_err r"]
  obtain stats where "parse_lines pf ig Map.empty (pre @ [l] @ post) (scan_err r) = (Some stats, scan_err r)"
    and "stats (Fields l ! 2) = Some (parse_stat pf (Fields l))" by blast
  then show ?thesis
    using assms(1) by (auto simp: parseDiskstats_def length_parse_stat nth_parse_stat)
qed

text \<open>
  The theorem at a row for \<^verbatim>\<open>sda\<close> whose seventh token is \<^verbatim>\<open>14x10\<close>: entry 3 is 0,
  and the entries beside it keep their values.
\<close>

theorem parseDiskstats_field_failure_witness:
  "\<exists>stats stat. parseDiskstats parse_decimal diskstats_corrupt (Some ignoredDevicesPattern) = (Some stats, None) \<and>
      stats ''sda'' = Some stat \<and> length stat = 11 \<and> stat ! 2 = 93842 \<and> stat ! 3 = 0 \<and> stat ! 4 = 3306"
proof -
  let ?l = "''   8       0 sda 4711 12 93842 14x10 3306 1203 72216 9960 0 5120 11370''"
  have 1: "scan_lines diskstats_corrupt = [] @ [?l] @ []" by (simp add: diskstats_corrupt_def)
  have 2: "\<forall>l' \<in> set (scan_lines diskstats_corrupt). length (Fields l') \<in> {14, 18, 20}"
    by (simp add: diskstats_corrupt_def diskstats_corrupt_fields)
  have 3: "\<not> ignored (Some ignoredDevicesPattern) (Fields ?l ! 2)"
    by (simp add: diskstats_corrupt_fields eval_regexp)
  have 4: "\<forall>l' \<in> set []. Fields l' ! 2 \<noteq> Fields ?l ! 2" by simp
  from parseDiskstats_field_failure[OF 1 2 3 4, of parse_decimal]
  obtain stats stat where a: "parseDiskstats parse_decimal diskstats_corrupt (Some ignoredDevicesPattern) = (Some stats, scan_err diskstats_corrupt)"
    and b: "stats (Fields ?l ! 2) = Some stat" and c: "length stat = length (Fields ?l) - 3"
    and d: "\<forall>i < length stat. stat ! i = (case parse_decimal (Fields ?l ! (i + 3)) of None \<Rightarrow> 0 | Some v \<Rightarrow> v)"
    by blast
  from c have len: "length stat = 11" by (simp add: diskstats_corrupt_fields)
  from d len have "stat ! 2 = 93842" "stat ! 3 = 0" "stat ! 4 = 3306"
    by (simp_all add: diskstats_corrupt_fields parse_decimal_def in_class_def)
  with a b len show ?thesis by (simp add: diskstats_corrupt_def diskstats_corrupt_fields)
qed

text \<open>
  The claim as stated fails without these conditions. Each of the four sources has a
  row of 14 columns with a token that is not a number. Where the reader fails after
  the row, the parse returns the reader's error; where a row of 12 columns follows,
  the parse returns an error and no map; the row of the loop device is not in the
  map; and where a second row for \<^verbatim>\<open>sda\<close> follows, entry 3 is the 1410 of that row,
  not 0.
\<close>

theorem parseDiskstats_field_failure_counterexample:
  "map (\<lambda>l. length (Fields l)) (scan_lines diskstats_corrupt_unreadable) = [14] \<and>
   map (\<lambda>l. length (Fields l)) (scan_lines diskstats_corrupt_short) = [14, 12] \<and>
   map (\<lambda>l. length (Fields l)) (scan_lines diskstats_corrupt_loop0) = [14] \<and>
   map (\<lambda>l. length (Fields l)) (scan_lines diskstats_corrupt_twice) = [14, 14] \<and>
   parse_decimal ''14x10'' = None \<and> parse_decimal ''2x6'' = None \<and>
   parseDiskstats parse_decimal diskstats_corrupt_unreadable (Some ignoredDevicesPattern) =
     (Some [''sda'' \<mapsto> [4711, 12, 93842, 0, 3306, 1203, 72216, 9960, 0, 5120, 11370]],
      Some (Error ''read /proc/diskstats: input/output error'')) \<and>
   parseDiskstats parse_decimal diskstats_corrupt_short (Some ignoredDevicesPattern) =
     (None, Some (Errorf ''invalid /proc/diskstats file, too few columns in line: ''
                    ''   8      16 sdb 90 1 5200 40 7 2 64 12 0'')) \<and>
   parseDiskstats parse_decimal diskstats_corrupt_loop0 (Some ignoredDevicesPattern) =
     (Some Map.empty, None) \<and>
   parseDiskstats parse_decimal diskstats_corrupt_twice (Some ignoredDevicesPattern) =
     (Some [''sda'' \<mapsto> [4711, 12, 93842, 1410, 3306, 1203, 72216, 9960, 0, 5120, 11370]], None)"
proof -
  have w: "map (\<lambda>l. length (Fields l)) (scan_lines diskstats_corrupt_unreadable) = [14]"
    "map (\<lambda>l. length (Fields l)) (scan_lines diskstats_corrupt_short) = [14, 12]"
    "map (\<lambda>l. length (Fields l)) (scan_lines diskstats_corrupt_loop0) = [14]"
    "map (\<lambda>l. length (Fields l)) (scan_lines diskstats_corrupt_twice) = [14, 14]"
    by (simp_all add: diskstats_corrupt_unreadable_def diskstats_corrupt_def diskstats_corrupt_short_def
          diskstats_corrupt_loop0_def diskstats_corrupt_twice_def eval_Fields)
  have p: "parse_decimal ''14x10'' = None" "parse_decimal ''2x6'' = None"
    by (simp_all add: parse_decimal_def in_class_def)
  have 1: "parseDiskstats parse_decimal diskstats_corrupt_unreadable (Some ignoredDevicesPattern) =
     (Some [''sda'' \<mapsto> [4711, 12, 93842, 0, 3306, 1203, 72216, 9960, 0, 5120, 11370]],
      Some (Error ''read /proc/diskstats: input/output error''))"
    by (simp add: diskstats_corrupt_unreadable_def diskstats_corrupt_def eval_Fields eval_regexp eval_parse)
  have 2: "parseDiskstats parse_decimal diskstats_corrupt_short (Some ignoredDevicesPattern) =
     (None, Some (Errorf ''invalid /proc/diskstats file, too few columns in line: ''
                    ''   8      16 sdb 90 1 5200 40 7 2 64 12 0''))"
    by (simp add: diskstats_corrupt_short_def eval_Fields eval_regexp eval_parse)
  have 3: "parseDiskstats parse_decimal diskstats_corrupt_loop0 (Some ignoredDevicesPattern) =
     (Some Map.empty, None)"
    by (simp add: diskstats_corrupt_loop0_def eval_Fields eval_regexp eval_parse)
  have 4: "parseDiskstats parse_decimal diskstats_corrupt_twice (Some ignoredDevicesPattern) =
     (Some [''sda'' \<mapsto> [4711, 12, 93842, 1410, 3306, 1203, 72216, 9960, 0, 5120, 11370]], None)"
    by (simp add: diskstats_corrupt_twice_def eval_Fields eval_regexp eval_parse)
  from w p 1 2 3 4 show ?thesis by (intro conjI)
qed

subsection \<open>The sysfs property reader\<close>

lemma storage_loop_eq:
  "storage_loop e ig acc dirs =
     acc @ map (\<lambda>p. \<lparr>device = device_of_path p,
                     rotational = projr (getDeviceRotational e p),
                     scheduler = projr (getDeviceScheduler e p)\<rparr>)
            (filter (\<lambda>p. \<not> ignored ig (device_of_path p) \<and> \<not> isl (getDeviceRotational e p) \<and>
                          \<not> isl (getDeviceScheduler e p)) dirs)"
  by (induction dirs arbitrary: acc) (auto simp: Let_def device_of_path_def split: sum.splits)

lemma getDeviceRotational_ok:
  "(\<not> isl (getDeviceRotational e p)) =
     (\<exists>content. ReadFile e (Clean e (p @ ''/queue/rotational'')) = Inr content \<and>
        (ReadLine content = Inr ''0'' \<or> ReadLine content = Inr ''1''))"
  by (auto simp: getDeviceRotational_def Let_def split: sum.splits)

lemma getDeviceScheduler_ok:
  "(\<not> isl (getDeviceScheduler e p)) =
     (\<exists>content line. ReadFile e (Clean e (p @ ''/queue/scheduler'')) = Inr content \<and>
        ReadLine content = Inr line \<and> Find schedulerPattern line \<noteq> None)"
  by (auto simp: getDeviceScheduler_def Let_def split: sum.splits option.splits)

lemmas eval_sysfs = example_env_def sysfs_files_def ReadLine_def Split_def device_of_path_def
  getDeviceRotational_def getDeviceScheduler_def schedulerPattern_def Trim_def Errorf_def

lemma example_rotational:
  "map (getDeviceRotational example_env)
     [''/sys/block/loop0'', ''/sys/block/nvme0n1'', ''/sys/block/sda'', ''/sys/block/sdb'',
      ''/sys/block/sdc'', ''/sys/block/sdd'', ''/sys/block/sde''] =
   [Inr ''1'', Inr ''0'', Inr ''1'', Inl (Error ''unknown rotational 2''), Inr ''0'',
    Inl (Error ''open /sys/block/sdd/queue/rotational: no such file or directory''), Inr ''0'']"
  by (simp add: eval_sysfs Let_def)

lemma example_scheduler:
  "map (getDeviceScheduler example_env)
     [''/sys/block/loop0'', ''/sys/block/nvme0n1'', ''/sys/block/sda'', ''/sys/block/sdb'',
      ''/sys/block/sdc'', ''/sys/block/sdd'', ''/sys/block/sde''] =
   [Inr ''none'', Inr ''none'', Inr ''mq-deadline'', Inr ''mq-deadline'',
    Inl (Error ''open /sys/block/sdc/queue/scheduler: no such file or directory''),
    Inr ''mq-deadline'', Inr ''cfq'']"
  by (simp add: eval_sysfs eval_regexp Let_def)

lemma example_devices:
  "map device_of_path
     [''/sys/block/loop0'', ''/sys/block/nvme0n1'', ''/sys/block/sda'', ''/sys/block/sdb'',
      ''/sys/block/sdc'', ''/sys/block/sdd'', ''/sys/block/sde''] =
   [''loop0'', ''nvme0n1'', ''sda'', ''sdb'', ''sdc'', ''sdd'', ''sde'']"
  by (simp add: Split_def device_of_path_def)

lemma example_ignored:
  "map (ignored (Some ignoredDevicesPattern))
     [''loop0'', ''nvme0n1'', ''sda'', ''sdb'', ''sdc'', ''sdd'', ''sde''] =
   [True, False, False, False, False, False, False]"
  by (simp add: eval_regexp)

text \<open>
  C7. When the glob succeeds, \<^verbatim>\<open>getStorageProperties\<close> returns no error, and the
  sequence it returns has, in the order of the globbed paths, one entry for each path
  whose device is not excluded and whose \<^verbatim>\<open>rotational\<close> and \<^verbatim>\<open>scheduler\<close> are both
  obtained; every other path is left out and nothing else changes. The \<^verbatim>\<open>rotational\<close>
  of a path is obtained exactly when its file can be read and its first line is
  \<^verbatim>\<open>0\<close> or \<^verbatim>\<open>1\<close>; the \<^verbatim>\<open>scheduler\<close> exactly when its file can be read and the pattern
  matches in its first line.
\<close>

theorem getStorageProperties_partial_failure:
  assumes "Glob e path = Inr dirs"
  shows "getStorageProperties e path ig =
           Inr (map (\<lambda>p. \<lparr>device = device_of_path p,
                          rotational = projr (getDeviceRotational e p),
                          scheduler = projr (getDeviceScheduler e p)\<rparr>)
                 (filter (\<lambda>p. \<not> ignored ig (device_of_path p) \<and>
                               \<not> isl (getDeviceRotational e p) \<and>
                               \<not> isl (getDeviceScheduler e p)) dirs))
         \<and> (\<forall>p. (\<not> isl (getDeviceRotational e p)) =
              (\<exists>content. ReadFile e (Clean e (p @ ''/queue/rotational'')) = Inr content \<and>
                 (ReadLine content = Inr ''0'' \<or> ReadLine content = Inr ''1'')))
         \<and> (\<forall>p. (\<not> isl (getDeviceScheduler e p)) =
              (\<exists>content line. ReadFile e (Clean e (p @ ''/queue/scheduler'')) = Inr content \<and>
                 ReadLine content = Inr line \<and> Find schedulerPattern line \<noteq> None))"
  using assms getDeviceRotational_ok getDeviceScheduler_ok
  by (simp add: getStorageProperties_def storage_loop_eq)

text \<open>
  The theorem at the example tree: \<^verbatim>\<open>sdb\<close> (\<^verbatim>\<open>rotational\<close> reads 2), \<^verbatim>\<open>sdc\<close> (no
  \<^verbatim>\<open>scheduler\<close> file) and \<^verbatim>\<open>sdd\<close> (no \<^verbatim>\<open>rotational\<close> file) are left out, \<^verbatim>\<open>loop0\<close> is
  excluded, and the other three devices are present.
\<close>

theorem getStorageProperties_partial_failure_witness:
  "getStorageProperties example_env ''/sys/block/*'' (Some ignoredDevicesPattern) =
     Inr [\<lparr>device = ''nvme0n1'', rotational = ''0'', scheduler = ''none''\<rparr>,
          \<lparr>device = ''sda'', rotational = ''1'', scheduler = ''mq-deadline''\<rparr>,
          \<lparr>device = ''sde'', rotational = ''0'', scheduler = ''cfq''\<rparr>]"
proof -
  let ?dirs = "[''/sys/block/loop0'', ''/sys/block/nvme0n1'', ''/sys/block/sda'',
               ''/sys/block/sdb'', ''/sys/block/sdc'', ''/sys/block/sdd'', ''/sys/block/sde'']"
  have g: "Glob example_env ''/sys/block/*'' = Inr ?dirs" by (simp add: example_env_def)
  from getStorageProperties_partial_failure[OF g, of "Some ignoredDevicesPattern"]
  have "getStorageProperties example_env ''/sys/block/*'' (Some ignoredDevicesPattern) =
           Inr (map (\<lambda>p. \<lparr>device = device_of_path p,
                          rotational = projr (getDeviceRotational example_env p),
                          scheduler = projr (getDeviceScheduler example_env p)\<rparr>)
                 (filter (\<lambda>p. \<not> ignored (Some ignoredDevicesPattern) (device_of_path p) \<and>
                               \<not> isl (getDeviceRotational example_env p) \<and>
                               \<not> isl (getDeviceScheduler example_env p)) ?dirs))"
    by (rule conjunct1)
  also have "\<dots> = Inr [\<lparr>device = ''nvme0n1'', rotational = ''0'', scheduler = ''none''\<rparr>,
          \<lparr>device = ''sda'', rotational = ''1'', scheduler = ''mq-deadline''\<rparr>,
          \<lparr>device = ''sde'', rotational = ''0'', scheduler = ''cfq''\<rparr>]"
    using example_rotational example_scheduler example_devices example_ignored by simp
  finally show ?thesis .
qed

subsection \<open>The samples of one device\<close>

lemma labelled_mustNewConstMetric:
  "labelled dev (mustNewConstMetric d v (x # xs)) = (x = dev)"
  "metric_labelValues (mustNewConstMetric d v ls) = ls"
  by (simp_all add: labelled_def mustNewConstMetric_def)

lemma metric_mustNewConstMetric:
  "fqName (metric_desc (mustNewConstMetric d v ls)) = fqName (desc d)"
  "metric_value (mustNewConstMetric d v ls) = (if factor d \<noteq> 0 then mul64 v (factor d) else v)"
  "metric_labelValues (mustNewConstMetric d v ls) = ls"
  "metric_valueType (mustNewConstMetric d v ls) = valueType d"
  by (simp_all add: mustNewConstMetric_def)

lemma update_device_all:
  "list_all (\<lambda>m. labelled dev m \<and> length (metric_labelValues m) \<le> 2) (update_device c dev stat)"
  by (simp add: update_device_def labelled_mustNewConstMetric)

lemma update_device_labels:
  "m \<in> set (update_device c dev stat) \<Longrightarrow> labelled dev m \<and> length (metric_labelValues m) \<le> 2"
  using update_device_all[of dev c stat] by (simp add: list_all_iff)

lemma labelled_unique: "labelled dev m \<Longrightarrow> labelled dev' m \<Longrightarrow> dev' = dev"
  by (auto simp: labelled_def split: list.splits)

lemma counter_samples_update_device:
  "counter_samples dev (update_device c dev' stat) =
     (if dev' = dev then update_device c dev stat else [])"
proof (cases "dev' = dev")
  case True
  then show ?thesis
    using update_device_labels[of _ c dev stat] by (auto simp: counter_samples_def filter_id_conv)
next
  case False
  have "\<not> labelled dev m" if "m \<in> set (update_device c dev' stat)" for m
    using update_device_labels[OF that] False labelled_unique by blast
  then show ?thesis using False by (simp add: counter_samples_def filter_empty_conv)
qed

lemma counter_samples_append:
  "counter_samples dev (xs @ ys) = counter_samples dev xs @ counter_samples dev ys"
  by (simp add: counter_samples_def)

lemma counter_samples_Nil: "counter_samples dev [] = []"
  by (simp add: counter_samples_def)

lemma update_counters_Cons:
  "update_counters c stats (d # ds) =
     (case stats d of None \<Rightarrow> [] | Some stat \<Rightarrow> update_device c d stat) @ update_counters c stats ds"
  by (simp add: update_counters_def)

lemma update_counters_Nil: "update_counters c stats [] = []"
  by (simp add: update_counters_def)

lemma counter_samples_step:
  "counter_samples dev (case stats d of None \<Rightarrow> [] | Some stat \<Rightarrow> update_device c d stat) =
     (if d = dev then (case stats dev of None \<Rightarrow> [] | Some stat \<Rightarrow> update_device c dev stat) else [])"
  by (cases "stats d") (auto simp: counter_samples_Nil counter_samples_update_device)

lemma counter_samples_other:
  "dev \<notin> set xs \<Longrightarrow> counter_samples dev (update_counters c stats xs) = []"
  by (induction xs)
     (auto simp: update_counters_Nil update_counters_Cons counter_samples_Nil
        counter_samples_append counter_samples_step)

lemma counter_samples_update_counters:
  "distinct order \<Longrightarrow> dev \<in> set order \<Longrightarrow> stats dev = Some stat \<Longrightarrow>
   counter_samples dev (update_counters c stats order) = update_device c dev stat"
proof (induction order)
  case Nil
  then show ?case by simp
next
  case (Cons d ds)
  show ?case
  proof (cases "d = dev")
    case True
    from Cons.prems(1) have "d \<notin> set ds" by simp
    then have "dev \<notin> set ds" unfolding True .
    then have 1: "counter_samples dev (update_counters c stats ds) = []"
      by (rule counter_samples_other)
    show ?thesis
      unfolding update_counters_Cons counter_samples_append counter_samples_step 1
      using True Cons.prems(3) by simp
  next
    case False
    from Cons.prems(1) have a: "distinct ds" by simp
    from Cons.prems(2) False have b: "dev \<in> set ds" by simp
    from Cons.IH[OF a b Cons.prems(3)]
    have 1: "counter_samples dev (update_counters c stats ds) = update_device c dev stat" .
    show ?thesis
      unfolding update_counters_Cons counter_samples_append counter_samples_step 1
      using False by simp
  qed
qed

lemma update_counters_mem:
  "m \<in> set (update_counters c stats order) \<Longrightarrow>
   \<exists>dev stat. dev \<in> set order \<and> stats dev = Some stat \<and> m \<in> set (update_device c dev stat)"
proof (induction order)
  case Nil
  then show ?case by (simp add: update_counters_Nil)
next
  case (Cons d ds)
  from Cons.prems consider
    (head) "m \<in> set (case stats d of None \<Rightarrow> [] | Some stat \<Rightarrow> update_device c d stat)"
    | (tail) "m \<in> set (update_counters c stats ds)"
    by (auto simp: update_counters_Cons)
  then show ?case
  proof cases
    case head
    then obtain stat where "stats d = Some stat" "m \<in> set (update_device c d stat)"
      by (cases "stats d") auto
    then show ?thesis by auto
  next
    case tail
    from Cons.IH[OF this] show ?thesis by auto
  qed
qed

lemma update_storages_labels:
  "m \<in> set (update_storages c e) \<Longrightarrow>
   \<exists>ss s. getStorageProperties e ''/sys/block/*'' (ignoredDevicesPattern_re c) = Inr ss \<and>
     s \<in> set ss \<and> m = mustNewConstMetric (storages c) 1 [device s, rotational s, scheduler s]"
  by (cases "getStorageProperties e ''/sys/block/*'' (ignoredDevicesPattern_re c)")
     (auto simp: update_storages_def)

lemma counter_samples_update_storages: "counter_samples dev (update_storages c e) = []"
proof -
  have "\<not> length (metric_labelValues m) \<le> 2" if "m \<in> set (update_storages c e)" for m
    using update_storages_labels[OF that] by (auto simp: labelled_mustNewConstMetric)
  then show ?thesis by (simp add: counter_samples_def filter_empty_conv)
qed

lemma update_device_count_rw:
  "length (filter (\<lambda>m. metric_labelValues m \<in> {[dev, ''reads''], [dev, ''writes''], [dev]})
             (update_device c dev stat)) = (if 11 \<le> length stat then 11 else 0)"
  by (simp add: update_device_def labelled_mustNewConstMetric)

lemma update_device_count_discards:
  "length (filter (\<lambda>m. metric_labelValues m = [dev, ''discards'']) (update_device c dev stat))
     = (if 15 \<le> length stat then 4 else 0)"
  by (simp add: update_device_def labelled_mustNewConstMetric)

lemma update_device_count_flush:
  "length (filter (\<lambda>m. metric_labelValues m = [dev, ''flush'']) (update_device c dev stat))
     = (if 17 \<le> length stat then 2 else 0)"
  by (simp add: update_device_def labelled_mustNewConstMetric)

lemma length_update_device:
  "length (update_device c dev stat) =
      (if 11 \<le> length stat then 11 else 0) + (if 15 \<le> length stat then 4 else 0)
                        + (if 17 \<le> length stat then 2 else 0)"
  by (simp add: update_device_def)

subsection \<open>The two outcomes of Update\<close>

lemma Update_ok:
  "getDiskstats e (ignoredDevicesPattern_re c) = (stats, None) \<Longrightarrow>
   Update c e order =
     (None, update_counters c (case stats of None \<Rightarrow> Map.empty | Some m \<Rightarrow> m) order @ update_storages c e)"
  by (simp add: Update_def)

lemma Update_failed:
  "getDiskstats e (ignoredDevicesPattern_re c) = (stats, Some err) \<Longrightarrow>
   Update c e order = (Some (Errorf ''get diskstats failed: '' (error_string err)), [])"
  by (simp add: Update_def)

lemma parseDiskstats_error_iff:
  "(snd (parseDiskstats pf r ig) = None) =
     ((\<forall>l \<in> set (scan_lines r). length (Fields l) \<in> {14, 18, 20}) \<and> scan_err r = None)"
proof (cases "\<forall>l \<in> set (scan_lines r). length (Fields l) \<in> {14, 18, 20}")
  case True
  from parse_lines_valid[OF True, of pf ig Map.empty "scan_err r"] True show ?thesis
    by (auto simp: parseDiskstats_def)
next
  case False
  then have "\<exists>l \<in> set (scan_lines r). length (Fields l) \<notin> {14, 18, 20}" by simp
  from parse_lines_invalid[OF this, of pf ig Map.empty "scan_err r"] False show ?thesis
    by (auto simp: parseDiskstats_def)
qed

lemma getDiskstats_ignored:
  "getDiskstats e (Some re) = (Some stats, err) \<Longrightarrow> MatchString re d \<Longrightarrow> stats d = None"
  unfolding getDiskstats_def parseDiskstats_def
  by (cases "Open e ''/proc/diskstats''")
     (auto dest: parse_lines_ignored[where d = d] simp: ignored_def)

lemma getStorageProperties_ignored:
  "getStorageProperties e path (Some re) = Inr ss \<Longrightarrow> s \<in> set ss \<Longrightarrow> \<not> MatchString re (device s)"
  unfolding getStorageProperties_def
  by (cases "Glob e path") (auto simp: storage_loop_eq ignored_def)

subsection \<open>The descriptors of NewDiskstatsCollector\<close>

lemma collector_fields:
  "ignoredDevicesPattern_re (NewDiskstatsCollector labels) = Some ignoredDevicesPattern"
  "fqName (desc (completed (NewDiskstatsCollector labels))) = ''node_disk_completed_total''"
  "fqName (desc (merged (NewDiskstatsCollector labels))) = ''node_disk_merged_total''"
  "fqName (desc (bytes (NewDiskstatsCollector labels))) = ''node_disk_bytes_total''"
  "fqName (desc (times_desc (NewDiskstatsCollector labels))) = ''node_disk_time_seconds_total''"
  "fqName (desc (ionow (NewDiskstatsCollector labels))) = ''node_disk_io_now''"
  "fqName (desc (iotime (NewDiskstatsCollector labels))) = ''node_disk_io_time_seconds_total''"
  "fqName (desc (iotimeweighted (NewDiskstatsCollector labels))) = ''node_disk_io_time_weighted_seconds_total''"
  "fqName (desc (storages (NewDiskstatsCollector labels))) = ''node_system_storage_info''"
  "factor (completed (NewDiskstatsCollector labels)) = 0"
  "factor (merged (NewDiskstatsCollector labels)) = 0"
  "factor (bytes (NewDiskstatsCollector labels)) = 512"
  "factor (times_desc (NewDiskstatsCollector labels)) = float64 0.001"
  "factor (ionow (NewDiskstatsCollector labels)) = 0"
  "factor (iotime (NewDiskstatsCollector labels)) = float64 0.001"
  "factor (iotimeweighted (NewDiskstatsCollector labels)) = float64 0.001"
  "factor (storages (NewDiskstatsCollector labels)) = 0"
  by (simp_all add: NewDiskstatsCollector_def NewDesc_def BuildFQName_def diskSectorSize_def Let_def)

lemma update_device_not_storage:
  "list_all (\<lambda>m. fqName (metric_desc m) \<noteq> ''node_system_storage_info'')
     (update_device (NewDiskstatsCollector labels) dev stat)"
  by (simp add: update_device_def metric_mustNewConstMetric collector_fields)

lemma update_storages_fqName:
  "m \<in> set (update_storages (NewDiskstatsCollector labels) e) \<Longrightarrow>
   fqName (metric_desc m) = ''node_system_storage_info'' \<and> metric_value m = 1 \<and>
   metric_valueType m = GaugeValue"
  using update_storages_labels[of m "NewDiskstatsCollector labels" e]
  by (auto simp: metric_mustNewConstMetric collector_fields)
     (simp add: NewDiskstatsCollector_def Let_def)

lemma update_device_explicit:
  "map (\<lambda>m. (fqName (metric_desc m), metric_labelValues m, metric_value m))
     (update_device (NewDiskstatsCollector labels) dev stat) =
   (if 11 \<le> length stat then
      [(''node_disk_completed_total'', [dev, ''reads''], stat ! 0),
       (''node_disk_merged_total'', [dev, ''reads''], stat ! 1),
       (''node_disk_bytes_total'', [dev, ''reads''], mul64 (stat ! 2) 512),
       (''node_disk_time_seconds_total'', [dev, ''reads''], mul64 (stat ! 3) (float64 0.001)),
       (''node_disk_completed_total'', [dev, ''writes''], stat ! 4),
       (''node_disk_merged_total'', [dev, ''writes''], stat ! 5),
       (''node_disk_bytes_total'', [dev, ''writes''], mul64 (stat ! 6) 512),
       (''node_disk_time_seconds_total'', [dev, ''writes''], mul64 (stat ! 7) (float64 0.001)),
       (''node_disk_io_now'', [dev], stat ! 8),
       (''node_disk_io_time_seconds_total'', [dev], mul64 (stat ! 9) (float64 0.001)),
       (''node_disk_io_time_weighted_seconds_total'', [dev], mul64 (stat ! 10) (float64 0.001))]
    else []) @
   (if 15 \<le> length stat then
      [(''node_disk_completed_total'', [dev, ''discards''], stat ! 11),
       (''node_disk_merged_total'', [dev, ''discards''], stat ! 12),
       (''node_disk_bytes_total'', [dev, ''discards''], mul64 (stat ! 13) 512),
       (''node_disk_time_seconds_total'', [dev, ''discards''], mul64 (stat ! 14) (float64 0.001))]
    else []) @
   (if 17 \<le> length stat then
      [(''node_disk_completed_total'', [dev, ''flush''], stat ! 15),
       (''node_disk_time_seconds_total'', [dev, ''flush''], mul64 (stat ! 16) (float64 0.001))]
    else [])"
  by (simp add: update_device_def metric_mustNewConstMetric collector_fields float64_001_neq)

lemma Update_samples_from:
  assumes "getDiskstats e (Some ignoredDevicesPattern) = (Some stats, None)"
  shows "snd (Update (NewDiskstatsCollector labels) e order) =
           update_counters (NewDiskstatsCollector labels) stats order
           @ update_storages (NewDiskstatsCollector labels) e"
  using Update_ok[of e "NewDiskstatsCollector labels" "Some stats" order] assms
  by (simp add: collector_fields)

lemma Update_samples_cases:
  assumes "getDiskstats e (Some ignoredDevicesPattern) = (Some stats, None)"
    and "m \<in> set (snd (Update (NewDiskstatsCollector labels) e order))"
  shows "fqName (metric_desc m) = ''node_system_storage_info'' \<or>
         (\<exists>dev stat. stats dev = Some stat \<and> m \<in> set (update_device (NewDiskstatsCollector labels) dev stat))"
proof -
  from assms(2)[unfolded Update_samples_from[OF assms(1)]] consider
    (counters) "m \<in> set (update_counters (NewDiskstatsCollector labels) stats order)"
    | (storages) "m \<in> set (update_storages (NewDiskstatsCollector labels) e)"
    by auto
  then show ?thesis
  proof cases
    case counters
    from update_counters_mem[OF this] show ?thesis by blast
  next
    case storages
    from update_storages_fqName[OF this] show ?thesis by simp
  qed
qed

lemma Update_samples_device:
  assumes "getDiskstats e (Some ignoredDevicesPattern) = (Some stats, None)"
    and "range_order stats order" and "stats dev = Some stat"
  shows "counter_samples dev (snd (Update (NewDiskstatsCollector labels) e order))
           = update_device (NewDiskstatsCollector labels) dev stat"
proof -
  from assms(2,3) have d: "distinct order" and i: "dev \<in> set order"
    by (auto simp: range_order_def)
  show ?thesis
    unfolding Update_samples_from[OF assms(1)] counter_samples_append counter_samples_update_storages
    using counter_samples_update_counters[of order dev stats stat "NewDiskstatsCollector labels", OF d i assms(3)]
    by simp
qed

subsection \<open>Evaluation of the example environment\<close>

lemma example_getDiskstats:
  "getDiskstats example_env (Some ignoredDevicesPattern) =
     (Some [''sda'' \<mapsto> [4711, 12, 93842, 1410, 3306, 1203, 72216, 9960, 0, 5120, 11370],
            ''nvme0n1'' \<mapsto> [15, 0, 1144, 3, 0, 0, 0, 0, 0, 8, 3, 0, 0, 0, 0],
            ''sdb'' \<mapsto> [90, 1, 5200, 40, 7, 2, 64, 12, 0, 36, 52, 3, 0, 2048, 5, 4, 9]],
      None)"
  by (simp add: getDiskstats_def example_env_def diskstats_example_parsed)

lemma example_storages:
  "getStorageProperties example_env ''/sys/block/*'' (Some ignoredDevicesPattern) =
     Inr [\<lparr>device = ''nvme0n1'', rotational = ''0'', scheduler = ''none''\<rparr>,
          \<lparr>device = ''sda'', rotational = ''1'', scheduler = ''mq-deadline''\<rparr>,
          \<lparr>device = ''sde'', rotational = ''0'', scheduler = ''cfq''\<rparr>]"
proof -
  have g: "Glob example_env ''/sys/block/*'' = Inr [''/sys/block/loop0'', ''/sys/block/nvme0n1'', ''/sys/block/sda'',
               ''/sys/block/sdb'', ''/sys/block/sdc'', ''/sys/block/sdd'', ''/sys/block/sde'']"
    by (simp add: example_env_def)
  show ?thesis
    unfolding getStorageProperties_def g storage_loop_eq
    using example_rotational example_scheduler example_devices example_ignored by simp
qed

lemma example_range_order:
  "range_order [''sda'' \<mapsto> [4711, 12, 93842, 1410, 3306, 1203, 72216, 9960, 0, 5120, 11370 :: real],
            ''nvme0n1'' \<mapsto> [15, 0, 1144, 3, 0, 0, 0, 0, 0, 8, 3, 0, 0, 0, 0],
            ''sdb'' \<mapsto> [90, 1, 5200, 40, 7, 2, 64, 12, 0, 36, 52, 3, 0, 2048, 5, 4, 9]]
     [''sdb'', ''sda'', ''nvme0n1'']"
  by (auto simp: range_order_def)

lemma example_Update_nth:
  "fqName (metric_desc (snd (Update (NewDiskstatsCollector Map.empty) example_env [''sdb'', ''sda'', ''nvme0n1'']) ! 9))
     = ''node_disk_io_time_seconds_total''"
  "metric_labelValues (snd (Update (NewDiskstatsCollector Map.empty) example_env [''sdb'', ''sda'', ''nvme0n1'']) ! 9)
     = [''sdb'']"
  "metric_value (snd (Update (NewDiskstatsCollector Map.empty) example_env [''sdb'', ''sda'', ''nvme0n1'']) ! 9)
     = mul64 36 (float64 (1 / 1000))"
  by (simp_all add: Update_ok[of _ _ "Some _"] collector_fields example_getDiskstats update_counters_Cons
       update_device_def metric_mustNewConstMetric float64_001_neq)

lemma stats_lengths_order: "range_order stats_lengths order_lengths"
  by (auto simp: range_order_def stats_lengths_def order_lengths_def)

lemma stats_lengths_eval:
  "stats_lengths ''sda'' = Some (replicate 10 1)"
  "stats_lengths ''sdb'' = Some (replicate 11 1)"
  "stats_lengths ''sdc'' = Some (replicate 14 1)"
  "stats_lengths ''sdd'' = Some (replicate 15 1)"
  "stats_lengths ''sde'' = Some (replicate 16 1)"
  "stats_lengths ''sdf'' = Some (replicate 17 1)"
  by (simp_all add: stats_lengths_def)

subsection \<open>Samples per device\<close>

text \<open>
  C2. Let \<open>stats\<close> be any counter map, let \<open>order\<close> be an order in which \<^verbatim>\<open>range\<close>
  visits its keys, and let \<open>stat\<close> be the vector of the device \<open>dev\<close>, of any length.
  The counter samples that the loop of \<^verbatim>\<open>Update\<close> sends for \<open>dev\<close> (those labelled
  with \<open>dev\<close> that carry one or two label values) are the samples of the loop body for
  \<open>dev\<close>: exactly 11 read, write and gauge samples when the vector has at least 11
  entries and none when it has fewer, exactly 4 discard samples when it has at least
  15 and none when it has fewer, exactly 2 flush samples when it has at least 17 and
  none when it has fewer; so a vector shorter than 11 gives no sample at all. When
  \<open>stats\<close> is the map that \<^verbatim>\<open>Update\<close> obtains without error, what \<^verbatim>\<open>Update\<close> sends is
  what this loop sends, followed by the storage samples, and the counter samples for
  \<open>dev\<close> are those of the loop.
\<close>

theorem Update_sample_counts:
  assumes "range_order stats order"
    and "stats dev = Some stat"
  shows "counter_samples dev (update_counters c stats order) = update_device c dev stat \<and>
         length (filter (\<lambda>m. metric_labelValues m \<in> {[dev, ''reads''], [dev, ''writes''], [dev]})
                   (counter_samples dev (update_counters c stats order)))
           = (if 11 \<le> length stat then 11 else 0) \<and>
         length (filter (\<lambda>m. metric_labelValues m = [dev, ''discards''])
                   (counter_samples dev (update_counters c stats order)))
           = (if 15 \<le> length stat then 4 else 0) \<and>
         length (filter (\<lambda>m. metric_labelValues m = [dev, ''flush''])
                   (counter_samples dev (update_counters c stats order)))
           = (if 17 \<le> length stat then 2 else 0) \<and>
         length (counter_samples dev (update_counters c stats order))
           = (if 11 \<le> length stat then 11 else 0) + (if 15 \<le> length stat then 4 else 0)
             + (if 17 \<le> length stat then 2 else 0) \<and>
         (length stat < 11 \<longrightarrow> counter_samples dev (update_counters c stats order) = []) \<and>
         (getDiskstats e (ignoredDevicesPattern_re c) = (Some stats, None) \<longrightarrow>
            snd (Update c e order) = update_counters c stats order @ update_storages c e \<and>
            counter_samples dev (snd (Update c e order))
              = counter_samples dev (update_counters c stats order))"
proof -
  from assms have d: "distinct order" and i: "dev \<in> set order"
    by (auto simp: range_order_def)
  have eq: "counter_samples dev (update_counters c stats order) = update_device c dev stat"
    using counter_samples_update_counters[of order dev stats stat c, OF d i assms(2)] .
  have short: "length stat < 11 \<longrightarrow> update_device c dev stat = []"
    by (simp add: update_device_def)
  have upd: "getDiskstats e (ignoredDevicesPattern_re c) = (Some stats, None) \<longrightarrow>
            snd (Update c e order) = update_counters c stats order @ update_storages c e \<and>
            counter_samples dev (snd (Update c e order)) = update_device c dev stat"
  proof
    assume g: "getDiskstats e (ignoredDevicesPattern_re c) = (Some stats, None)"
    have u: "snd (Update c e order) = update_counters c stats order @ update_storages c e"
      using Update_ok[OF g, of order] by simp
    have "counter_samples dev (snd (Update c e order)) = update_device c dev stat"
      unfolding u counter_samples_append counter_samples_update_storages eq by simp
    with u show "snd (Update c e order) = update_counters c stats order @ update_storages c e \<and>
            counter_samples dev (snd (Update c e order)) = update_device c dev stat" ..
  qed
  show ?thesis
    unfolding eq
    by (intro conjI refl update_device_count_rw update_device_count_discards
          update_device_count_flush length_update_device short upd)
qed

text \<open>
  The theorem at vectors of 10, 11, 14, 15, 16 and 17 entries: the numbers of read,
  write and gauge samples, of discard samples, of flush samples and of all counter
  samples of each device. And at the example: \<^verbatim>\<open>Update\<close> sends 11, 15 and 17 samples
  for the vectors of 11, 15 and 17 entries of the counters file.
\<close>

theorem Update_sample_counts_witness:
  "map (\<lambda>dev.
      (length (filter (\<lambda>m. metric_labelValues m \<in> {[dev, ''reads''], [dev, ''writes''], [dev]})
         (counter_samples dev
            (update_counters (NewDiskstatsCollector Map.empty) stats_lengths order_lengths))),
       length (filter (\<lambda>m. metric_labelValues m = [dev, ''discards''])
         (counter_samples dev
            (update_counters (NewDiskstatsCollector Map.empty) stats_lengths order_lengths))),
       length (filter (\<lambda>m. metric_labelValues m = [dev, ''flush''])
         (counter_samples dev
            (update_counters (NewDiskstatsCollector Map.empty) stats_lengths order_lengths))),
       length (counter_samples dev
            (update_counters (NewDiskstatsCollector Map.empty) stats_lengths order_lengths))))
     [''sda'', ''sdb'', ''sdc'', ''sdd'', ''sde'', ''sdf'']
     = [(0, 0, 0, 0), (11, 0, 0, 11), (11, 0, 0, 11), (11, 4, 0, 15), (11, 4, 0, 15), (11, 4, 2, 17)] \<and>
   map (\<lambda>dev. length (counter_samples dev
          (snd (Update (NewDiskstatsCollector Map.empty) example_env [''sdb'', ''sda'', ''nvme0n1'']))))
     [''sda'', ''nvme0n1'', ''sdb''] = [11, 15, 17]"
proof -
  let ?c = "NewDiskstatsCollector Map.empty"
  note cnt = conjunct1[OF conjunct2] conjunct1[OF conjunct2[OF conjunct2]]
    conjunct1[OF conjunct2[OF conjunct2[OF conjunct2]]]
    conjunct1[OF conjunct2[OF conjunct2[OF conjunct2[OF conjunct2]]]]
  note len = conjunct1[OF conjunct2[OF conjunct2[OF conjunct2[OF conjunct2]]]]
  note upd = conjunct2[OF conjunct2[OF conjunct2[OF conjunct2[OF conjunct2[OF conjunct2]]]]]
  note t = Update_sample_counts[where c = ?c and e = example_env, OF stats_lengths_order]
  note s = cnt[OF t[OF stats_lengths_eval(1)]] cnt[OF t[OF stats_lengths_eval(2)]]
    cnt[OF t[OF stats_lengths_eval(3)]] cnt[OF t[OF stats_lengths_eval(4)]]
    cnt[OF t[OF stats_lengths_eval(5)]] cnt[OF t[OF stats_lengths_eval(6)]]
  let ?stats = "[''sda'' \<mapsto> [4711, 12, 93842, 1410, 3306, 1203, 72216, 9960, 0, 5120, 11370 :: real],
            ''nvme0n1'' \<mapsto> [15, 0, 1144, 3, 0, 0, 0, 0, 0, 8, 3, 0, 0, 0, 0],
            ''sdb'' \<mapsto> [90, 1, 5200, 40, 7, 2, 64, 12, 0, 36, 52, 3, 0, 2048, 5, 4, 9]]"
  have g: "getDiskstats example_env (ignoredDevicesPattern_re ?c) = (Some ?stats, None)"
    by (simp add: collector_fields example_getDiskstats)
  note u = Update_sample_counts[where c = ?c and e = example_env, OF example_range_order]
  have a: "?stats ''sda'' = Some [4711, 12, 93842, 1410, 3306, 1203, 72216, 9960, 0, 5120, 11370]"
    and n: "?stats ''nvme0n1'' = Some [15, 0, 1144, 3, 0, 0, 0, 0, 0, 8, 3, 0, 0, 0, 0]"
    and b: "?stats ''sdb'' = Some [90, 1, 5200, 40, 7, 2, 64, 12, 0, 36, 52, 3, 0, 2048, 5, 4, 9]"
    by simp_all
  note e = conjunct2[OF mp[OF upd[OF u[OF a]] g]] conjunct2[OF mp[OF upd[OF u[OF n]] g]]
    conjunct2[OF mp[OF upd[OF u[OF b]] g]]
  note l = len[OF u[OF a]] len[OF u[OF n]] len[OF u[OF b]]
  have 1: "map (\<lambda>dev. length (counter_samples dev
          (snd (Update (NewDiskstatsCollector Map.empty) example_env [''sdb'', ''sda'', ''nvme0n1'']))))
     [''sda'', ''nvme0n1'', ''sdb''] = [11, 15, 17]"
    by (simp add: l[folded e])
  from s 1 show ?thesis by simp
qed

subsection \<open>Excluded devices\<close>

text \<open>
  C3. For every exclusion pattern \<open>re\<close> and every device name \<open>d\<close> that it matches:
  \<open>d\<close> is not a key of a map that \<^verbatim>\<open>parseDiskstats\<close> returns, \<open>d\<close> is not the device of
  an entry that \<^verbatim>\<open>getStorageProperties\<close> returns, and \<^verbatim>\<open>Update\<close>, which hands the one
  pattern of the collector to both, sends no sample labelled with \<open>d\<close>.
\<close>

theorem excluded_device_absent:
  assumes "MatchString re d"
  shows "(\<forall>stats err. parseDiskstats pf r (Some re) = (Some stats, err) \<longrightarrow> stats d = None) \<and>
         (\<forall>ss. getStorageProperties e path (Some re) = Inr ss \<longrightarrow> d \<notin> device ` set ss) \<and>
         (ignoredDevicesPattern_re c = Some re \<longrightarrow>
            (\<forall>m \<in> set (snd (Update c e order)). \<not> labelled d m))"
proof (intro conjI allI impI ballI)
  fix stats err
  assume "parseDiskstats pf r (Some re) = (Some stats, err)"
  then show "stats d = None"
    using assms parse_lines_ignored[of pf "Some re" Map.empty "scan_lines r" "scan_err r" stats err d]
    by (simp add: parseDiskstats_def ignored_def)
next
  fix ss
  assume "getStorageProperties e path (Some re) = Inr ss"
  then show "d \<notin> device ` set ss"
    using assms getStorageProperties_ignored by blast
next
  fix m
  assume c: "ignoredDevicesPattern_re c = Some re" and m: "m \<in> set (snd (Update c e order))"
  show "\<not> labelled d m"
  proof
    assume l: "labelled d m"
    obtain stats err where g: "getDiskstats e (Some re) = (stats, err)" by (cases "getDiskstats e (Some re)")
    show False
    proof (cases err)
      case (Some a)
      with g c m show False by (simp add: Update_def)
    next
      case None
      with g c have u: "snd (Update c e order) =
          update_counters c (case stats of None \<Rightarrow> Map.empty | Some m \<Rightarrow> m) order @ update_storages c e"
        by (simp add: Update_def)
      from m[unfolded u] consider
        (counters) "m \<in> set (update_counters c (case stats of None \<Rightarrow> Map.empty | Some m \<Rightarrow> m) order)"
        | (storages) "m \<in> set (update_storages c e)" by auto
      then show False
      proof cases
        case counters
        from update_counters_mem[OF this] obtain dev stat where
          s: "(case stats of None \<Rightarrow> Map.empty | Some m \<Rightarrow> m) dev = Some stat"
          and md: "m \<in> set (update_device c dev stat)" by blast
        from update_device_labels[OF md] l have "dev = d" using labelled_unique by blast
        with s obtain st where "stats = Some st" "st d = Some stat" by (cases stats) auto
        with g None getDiskstats_ignored[of e re st err d] assms show False by simp
      next
        case storages
        from update_storages_labels[OF this] c obtain ss s where
          "getStorageProperties e ''/sys/block/*'' (Some re) = Inr ss" "s \<in> set ss"
          "m = mustNewConstMetric (storages c) 1 [device s, rotational s, scheduler s]" by auto
        with l getStorageProperties_ignored[of e "''/sys/block/*''" re ss s] assms show False
          by (simp add: labelled_mustNewConstMetric)
      qed
    qed
  qed
qed

text \<open>The theorem at the default pattern and \<^verbatim>\<open>loop0\<close>, on the example.\<close>

theorem excluded_device_absent_witness:
  "MatchString ignoredDevicesPattern ''loop0'' \<and>
   (\<exists>stats. parseDiskstats parse_decimal diskstats_example (Some ignoredDevicesPattern) = (Some stats, None) \<and>
      stats ''loop0'' = None) \<and>
   (\<exists>ss. getStorageProperties example_env ''/sys/block/*'' (Some ignoredDevicesPattern) = Inr ss \<and>
      ''loop0'' \<notin> device ` set ss) \<and>
   list_all (\<lambda>m. \<not> labelled ''loop0'' m)
     (snd (Update (NewDiskstatsCollector Map.empty) example_env [''sdb'', ''sda'', ''nvme0n1'']))"
proof -
  have m: "MatchString ignoredDevicesPattern ''loop0''" by (simp add: eval_regexp)
  note t = excluded_device_absent[OF m, of parse_decimal diskstats_example example_env "''/sys/block/*''"
      "NewDiskstatsCollector Map.empty" "[''sdb'', ''sda'', ''nvme0n1'']"]
  from t have 1: "\<forall>stats err. parseDiskstats parse_decimal diskstats_example (Some ignoredDevicesPattern) = (Some stats, err) \<longrightarrow> stats ''loop0'' = None"
    by blast
  from t have 2: "\<forall>ss. getStorageProperties example_env ''/sys/block/*'' (Some ignoredDevicesPattern) = Inr ss \<longrightarrow> ''loop0'' \<notin> device ` set ss"
    by blast
  from t have 3: "\<forall>m \<in> set (snd (Update (NewDiskstatsCollector Map.empty) example_env [''sdb'', ''sda'', ''nvme0n1''])). \<not> labelled ''loop0'' m"
    by (simp add: collector_fields)
  obtain stats where p: "parseDiskstats parse_decimal diskstats_example (Some ignoredDevicesPattern) = (Some stats, None)"
    using diskstats_example_parsed by blast
  obtain ss where s: "getStorageProperties example_env ''/sys/block/*'' (Some ignoredDevicesPattern) = Inr ss"
    using example_storages by blast
  from m 1 p 2 s 3 show ?thesis by (auto simp: list_all_iff)
qed

subsection \<open>Failures of the two collections\<close>

text \<open>
  C4. When the counters cannot be obtained, \<^verbatim>\<open>Update\<close> returns an error and has sent
  no sample: when the file cannot be opened, when a row has a width other than 14, 18
  or 20 or the scanner fails, and generally whenever \<^verbatim>\<open>getDiskstats\<close> returns an error.
  When the counters are obtained and \<^verbatim>\<open>getStorageProperties\<close> fails, \<^verbatim>\<open>Update\<close> returns
  \<^verbatim>\<open>nil\<close>, and the samples it has sent are exactly the counter samples: no
  \<^verbatim>\<open>storage_info\<close> sample is sent.
\<close>

theorem Update_failures:
  "(\<forall>err. Open e ''/proc/diskstats'' = Inl err \<longrightarrow>
      Update c e order = (Some (Errorf ''get diskstats failed: '' (error_string err)), []))
   \<and> (\<forall>r. Open e ''/proc/diskstats'' = Inr r \<and>
          ((\<exists>l \<in> set (scan_lines r). length (Fields l) \<notin> {14, 18, 20}) \<or> scan_err r \<noteq> None) \<longrightarrow>
        fst (Update c e order) \<noteq> None \<and> snd (Update c e order) = [])
   \<and> (\<forall>stats err. getDiskstats e (ignoredDevicesPattern_re c) = (stats, Some err) \<longrightarrow>
        Update c e order = (Some (Errorf ''get diskstats failed: '' (error_string err)), []))
   \<and> (\<forall>stats err. getDiskstats e (ignoredDevicesPattern_re c) = (Some stats, None) \<and>
          getStorageProperties e ''/sys/block/*'' (ignoredDevicesPattern_re c) = Inl err \<longrightarrow>
        Update c e order = (None, update_counters c stats order) \<and> update_storages c e = [])"
proof -
  have 1: "Update c e order = (Some (Errorf ''get diskstats failed: '' (error_string err)), [])"
    if "Open e ''/proc/diskstats'' = Inl err" for err
    using that by (simp add: Update_def getDiskstats_def)
  have 2: "fst (Update c e order) \<noteq> None \<and> snd (Update c e order) = []"
    if a: "Open e ''/proc/diskstats'' = Inr r \<and>
          ((\<exists>l \<in> set (scan_lines r). length (Fields l) \<notin> {14, 18, 20}) \<or> scan_err r \<noteq> None)"
    for r
  proof -
    from a have "snd (parseDiskstats (ParseFloat e) r (ignoredDevicesPattern_re c)) \<noteq> None"
      using parseDiskstats_error_iff[of "ParseFloat e" r "ignoredDevicesPattern_re c"] by auto
    then obtain stats err where "getDiskstats e (ignoredDevicesPattern_re c) = (stats, Some err)"
      using a by (cases "parseDiskstats (ParseFloat e) r (ignoredDevicesPattern_re c)")
                 (auto simp: getDiskstats_def)
    from Update_failed[OF this] show ?thesis by simp
  qed
  have 3: "Update c e order = (Some (Errorf ''get diskstats failed: '' (error_string err)), [])"
    if "getDiskstats e (ignoredDevicesPattern_re c) = (stats, Some err)" for stats err
    using Update_failed[OF that] .
  have 4: "Update c e order = (None, update_counters c stats order) \<and> update_storages c e = []"
    if a: "getDiskstats e (ignoredDevicesPattern_re c) = (Some stats, None) \<and>
          getStorageProperties e ''/sys/block/*'' (ignoredDevicesPattern_re c) = Inl err"
    for stats err
  proof -
    from a have s: "update_storages c e = []" by (simp add: update_storages_def)
    with a Update_ok[of e c "Some stats" order] show ?thesis by simp
  qed
  from 1 2 3 4 show ?thesis by blast
qed

text \<open>
  The theorem at the three variations of the example: an error and no sample when the
  file cannot be opened and when a row has 12 columns; no error and the 43 counter
  samples when the glob fails.
\<close>

theorem Update_failures_witness:
  "Update (NewDiskstatsCollector Map.empty) env_no_diskstats [''sdb'', ''sda'', ''nvme0n1'']
     = (Some (Error ''get diskstats failed: open /proc/diskstats: permission denied''), []) \<and>
   fst (Update (NewDiskstatsCollector Map.empty) env_short [''sda'']) \<noteq> None \<and>
   snd (Update (NewDiskstatsCollector Map.empty) env_short [''sda'']) = [] \<and>
   fst (Update (NewDiskstatsCollector Map.empty) env_no_glob [''sdb'', ''sda'', ''nvme0n1'']) = None \<and>
   length (snd (Update (NewDiskstatsCollector Map.empty) env_no_glob [''sdb'', ''sda'', ''nvme0n1''])) = 43"
proof -
  let ?c = "NewDiskstatsCollector Map.empty"
  let ?o = "[''sdb'', ''sda'', ''nvme0n1'']"
  let ?stats = "[''sda'' \<mapsto> [4711, 12, 93842, 1410, 3306, 1203, 72216, 9960, 0, 5120, 11370 :: real],
            ''nvme0n1'' \<mapsto> [15, 0, 1144, 3, 0, 0, 0, 0, 0, 8, 3, 0, 0, 0, 0],
            ''sdb'' \<mapsto> [90, 1, 5200, 40, 7, 2, 64, 12, 0, 36, 52, 3, 0, 2048, 5, 4, 9]]"
  have o1: "Open env_no_diskstats ''/proc/diskstats'' = Inl (Error ''open /proc/diskstats: permission denied'')"
    by (simp add: env_no_diskstats_def)
  have o2: "Open env_short ''/proc/diskstats'' = Inr diskstats_short \<and>
     ((\<exists>l \<in> set (scan_lines diskstats_short). length (Fields l) \<notin> {14, 18, 20}) \<or> scan_err diskstats_short \<noteq> None)"
    using diskstats_short_widths by (simp add: env_short_def diskstats_short_def)
  have o3: "getDiskstats env_no_glob (ignoredDevicesPattern_re ?c) = (Some ?stats, None) \<and>
     getStorageProperties env_no_glob ''/sys/block/*'' (ignoredDevicesPattern_re ?c) = Inl (Error ''syntax error in pattern'')"
    using example_getDiskstats
    by (simp add: env_no_glob_def collector_fields getDiskstats_def getStorageProperties_def example_env_def)
  from Update_failures[of env_no_diskstats ?c ?o] o1
  have 1: "Update ?c env_no_diskstats ?o = (Some (Error ''get diskstats failed: open /proc/diskstats: permission denied''), [])"
    by (simp add: Errorf_def)
  from Update_failures[of env_short ?c "[''sda'']"] o2
  have 2: "fst (Update ?c env_short [''sda'']) \<noteq> None \<and> snd (Update ?c env_short [''sda'']) = []"
    by blast
  from Update_failures[of env_no_glob ?c ?o] o3
  have 3: "Update ?c env_no_glob ?o = (None, update_counters ?c ?stats ?o)"
    by blast
  have 4: "length (update_counters ?c ?stats ?o) = 43"
    by (simp add: update_counters_Cons update_counters_Nil length_update_device)
  from 1 2 3 4 show ?thesis by simp
qed

subsection \<open>Unit conversion\<close>

text \<open>
  C5 (amended). Let the collector be the one \<^verbatim>\<open>NewDiskstatsCollector\<close> builds. For a
  device \<open>dev\<close> with the vector \<open>stat\<close>, of any length, the loop body of \<^verbatim>\<open>Update\<close>
  sends the samples listed in the theorem, in that order, and no other. Entries 2, 6
  and 13 of the vector (sectors read, written, discarded) are sent as
  \<^verbatim>\<open>node_disk_bytes_total\<close>, each as the float64 product of the entry and 512. Entries
  3, 7, 14 and 16 (milliseconds reading, writing, discarding, flushing) are sent as
  \<^verbatim>\<open>node_disk_time_seconds_total\<close>, entry 9 as \<^verbatim>\<open>node_disk_io_time_seconds_total\<close> and
  entry 10 as \<^verbatim>\<open>node_disk_io_time_weighted_seconds_total\<close>, each as the float64
  product of the entry and the float64 nearest to 0.001, which is
  \<open>1152921504606847 / 2 ^ 60\<close>. The other entries are sent as they are.

  The product with 512 is exact: it is the entry times 512 for every float64 entry
  whose product stays below \<open>2 ^ 1024\<close>. The product with the constant is rounded: it
  is within \<open>\<bar>x\<bar> * 0.001 / 2 ^ 52 + 2 ^ -1075\<close> of \<open>x * 0.001\<close>, and not always equal
  to it.

  When \<^verbatim>\<open>Update\<close> obtains the counter map \<open>stats\<close> without error, it sends the samples of
  the loop followed by the storage samples; every sample it sends is a
  \<^verbatim>\<open>node_system_storage_info\<close> or one of the loop body for a device of \<open>stats\<close>; and
  the counter samples it sends for a device of \<open>stats\<close> are those of the loop body.
\<close>

theorem Update_unit_conversion:
  "map (\<lambda>m. (fqName (metric_desc m), metric_labelValues m, metric_value m))
     (update_device (NewDiskstatsCollector labels) dev stat) =
   (if 11 \<le> length stat then
      [(''node_disk_completed_total'', [dev, ''reads''], stat ! 0),
       (''node_disk_merged_total'', [dev, ''reads''], stat ! 1),
       (''node_disk_bytes_total'', [dev, ''reads''], mul64 (stat ! 2) 512),
       (''node_disk_time_seconds_total'', [dev, ''reads''], mul64 (stat ! 3) (float64 0.001)),
       (''node_disk_completed_total'', [dev, ''writes''], stat ! 4),
       (''node_disk_merged_total'', [dev, ''writes''], stat ! 5),
       (''node_disk_bytes_total'', [dev, ''writes''], mul64 (stat ! 6) 512),
       (''node_disk_time_seconds_total'', [dev, ''writes''], mul64 (stat ! 7) (float64 0.001)),
       (''node_disk_io_now'', [dev], stat ! 8),
       (''node_disk_io_time_seconds_total'', [dev], mul64 (stat ! 9) (float64 0.001)),
       (''node_disk_io_time_weighted_seconds_total'', [dev], mul64 (stat ! 10) (float64 0.001))]
    else []) @
   (if 15 \<le> length stat then
      [(''node_disk_completed_total'', [dev, ''discards''], stat ! 11),
       (''node_disk_merged_total'', [dev, ''discards''], stat ! 12),
       (''node_disk_bytes_total'', [dev, ''discards''], mul64 (stat ! 13) 512),
       (''node_disk_time_seconds_total'', [dev, ''discards''], mul64 (stat ! 14) (float64 0.001))]
    else []) @
   (if 17 \<le> length stat then
      [(''node_disk_completed_total'', [dev, ''flush''], stat ! 15),
       (''node_disk_time_seconds_total'', [dev, ''flush''], mul64 (stat ! 16) (float64 0.001))]
    else []) \<and>
   (\<forall>x. is_float64 x \<and> \<bar>x * 512\<bar> < 2 ^ 1024 \<longrightarrow> mul64 x 512 = x * 512) \<and>
   float64 0.001 = 1152921504606847 / 2 ^ 60 \<and>
   (\<forall>x. \<bar>mul64 x (float64 0.001) - x * 0.001\<bar> \<le> \<bar>x\<bar> * 0.001 / 2 ^ 52 + 1 / 2 ^ 1075) \<and>
   (getDiskstats e (Some ignoredDevicesPattern) = (Some stats, None) \<longrightarrow>
      snd (Update (NewDiskstatsCollector labels) e order) =
        update_counters (NewDiskstatsCollector labels) stats order
        @ update_storages (NewDiskstatsCollector labels) e \<and>
      (\<forall>m \<in> set (snd (Update (NewDiskstatsCollector labels) e order)).
         fqName (metric_desc m) = ''node_system_storage_info'' \<or>
         (\<exists>dev stat. stats dev = Some stat \<and>
            m \<in> set (update_device (NewDiskstatsCollector labels) dev stat))) \<and>
      (range_order stats order \<and> stats dev = Some stat \<longrightarrow>
         counter_samples dev (snd (Update (NewDiskstatsCollector labels) e order))
           = update_device (NewDiskstatsCollector labels) dev stat))"
proof (intro conjI)
  show "\<forall>x. is_float64 x \<and> \<bar>x * 512\<bar> < 2 ^ 1024 \<longrightarrow> mul64 x 512 = x * 512"
    using mul64_512_exact by blast
  show "float64 0.001 = 1152921504606847 / 2 ^ 60" by (rule float64_001)
  show "\<forall>x. \<bar>mul64 x (float64 0.001) - x * 0.001\<bar> \<le> \<bar>x\<bar> * 0.001 / 2 ^ 52 + 1 / 2 ^ 1075"
    using mul64_001_error by blast
  show "getDiskstats e (Some ignoredDevicesPattern) = (Some stats, None) \<longrightarrow>
      snd (Update (NewDiskstatsCollector labels) e order) =
        update_counters (NewDiskstatsCollector labels) stats order
        @ update_storages (NewDiskstatsCollector labels) e \<and>
      (\<forall>m \<in> set (snd (Update (NewDiskstatsCollector labels) e order)).
         fqName (metric_desc m) = ''node_system_storage_info'' \<or>
         (\<exists>dev stat. stats dev = Some stat \<and>
            m \<in> set (update_device (NewDiskstatsCollector labels) dev stat))) \<and>
      (range_order stats order \<and> stats dev = Some stat \<longrightarrow>
         counter_samples dev (snd (Update (NewDiskstatsCollector labels) e order))
           = update_device (NewDiskstatsCollector labels) dev stat)"
  proof
    assume g: "getDiskstats e (Some ignoredDevicesPattern) = (Some stats, None)"
    have 1: "snd (Update (NewDiskstatsCollector labels) e order) =
        update_counters (NewDiskstatsCollector labels) stats order
        @ update_storages (NewDiskstatsCollector labels) e"
      by (rule Update_samples_from[OF g])
    have 2: "\<forall>m \<in> set (snd (Update (NewDiskstatsCollector labels) e order)).
         fqName (metric_desc m) = ''node_system_storage_info'' \<or>
         (\<exists>dev stat. stats dev = Some stat \<and>
            m \<in> set (update_device (NewDiskstatsCollector labels) dev stat))"
      using Update_samples_cases[OF g] by blast
    have 3: "range_order stats order \<and> stats dev = Some stat \<longrightarrow>
         counter_samples dev (snd (Update (NewDiskstatsCollector labels) e order))
           = update_device (NewDiskstatsCollector labels) dev stat"
      using Update_samples_device[OF g] by blast
    from 1 2 3 show "snd (Update (NewDiskstatsCollector labels) e order) =
        update_counters (NewDiskstatsCollector labels) stats order
        @ update_storages (NewDiskstatsCollector labels) e \<and>
      (\<forall>m \<in> set (snd (Update (NewDiskstatsCollector labels) e order)).
         fqName (metric_desc m) = ''node_system_storage_info'' \<or>
         (\<exists>dev stat. stats dev = Some stat \<and>
            m \<in> set (update_device (NewDiskstatsCollector labels) dev stat))) \<and>
      (range_order stats order \<and> stats dev = Some stat \<longrightarrow>
         counter_samples dev (snd (Update (NewDiskstatsCollector labels) e order))
           = update_device (NewDiskstatsCollector labels) dev stat)"
      by (intro conjI)
  qed
qed (rule update_device_explicit)

text \<open>
  The theorem at \<^verbatim>\<open>sdb\<close> of the example, whose vector has 17 entries: 5200 sectors
  are 2662400 bytes, 40 milliseconds are the float64 0.04, and 36 milliseconds are
  within the rounding error of 0.036.
\<close>

theorem Update_unit_conversion_witness:
  "map (\<lambda>m. (fqName (metric_desc m), metric_labelValues m, metric_value m))
     (counter_samples ''sdb''
        (snd (Update (NewDiskstatsCollector Map.empty) example_env [''sdb'', ''sda'', ''nvme0n1''])))
   = [(''node_disk_completed_total'', [''sdb'', ''reads''], 90),
      (''node_disk_merged_total'', [''sdb'', ''reads''], 1),
      (''node_disk_bytes_total'', [''sdb'', ''reads''], 2662400),
      (''node_disk_time_seconds_total'', [''sdb'', ''reads''], 5764607523034235 / 2 ^ 57),
      (''node_disk_completed_total'', [''sdb'', ''writes''], 7),
      (''node_disk_merged_total'', [''sdb'', ''writes''], 2),
      (''node_disk_bytes_total'', [''sdb'', ''writes''], 32768),
      (''node_disk_time_seconds_total'', [''sdb'', ''writes''], 3458764513820541 / 2 ^ 58),
      (''node_disk_io_now'', [''sdb''], 0),
      (''node_disk_io_time_seconds_total'', [''sdb''], 1297036692682703 / 2 ^ 55),
      (''node_disk_io_time_weighted_seconds_total'', [''sdb''], 3746994889972253 / 2 ^ 56),
      (''node_disk_completed_total'', [''sdb'', ''discards''], 3),
      (''node_disk_merged_total'', [''sdb'', ''discards''], 0),
      (''node_disk_bytes_total'', [''sdb'', ''discards''], 1048576),
      (''node_disk_time_seconds_total'', [''sdb'', ''discards''], 5764607523034235 / 2 ^ 60),
      (''node_disk_completed_total'', [''sdb'', ''flush''], 4),
      (''node_disk_time_seconds_total'', [''sdb'', ''flush''], 1297036692682703 / 2 ^ 57)] \<and>
   mul64 5200 512 = 5200 * 512 \<and>
   \<bar>mul64 36 (float64 0.001) - 36 * 0.001\<bar> \<le> 36 * 0.001 / 2 ^ 52 + 1 / 2 ^ 1075"
proof -
  let ?stat = "[90, 1, 5200, 40, 7, 2, 64, 12, 0, 36, 52, 3, 0, 2048, 5, 4, 9 :: real]"
  let ?stats = "[''sda'' \<mapsto> [4711, 12, 93842, 1410, 3306, 1203, 72216, 9960, 0, 5120, 11370 :: real],
            ''nvme0n1'' \<mapsto> [15, 0, 1144, 3, 0, 0, 0, 0, 0, 8, 3, 0, 0, 0, 0],
            ''sdb'' \<mapsto> ?stat]"
  note t = Update_unit_conversion[of Map.empty "''sdb''" ?stat example_env ?stats "[''sdb'', ''sda'', ''nvme0n1'']"]
  note list = conjunct1[OF t]
  note exact = conjunct1[OF conjunct2[OF t]]
  note err = conjunct1[OF conjunct2[OF conjunct2[OF conjunct2[OF t]]]]
  note upd = conjunct2[OF conjunct2[OF mp[OF conjunct2[OF conjunct2[OF conjunct2[OF conjunct2[OF t]]]]
      example_getDiskstats]]]
  have b: "?stats ''sdb'' = Some ?stat" by simp
  note sent = mp[OF upd conjI[OF example_range_order b]]
  have 1: "map (\<lambda>m. (fqName (metric_desc m), metric_labelValues m, metric_value m))
     (counter_samples ''sdb''
        (snd (Update (NewDiskstatsCollector Map.empty) example_env [''sdb'', ''sda'', ''nvme0n1''])))
   = [(''node_disk_completed_total'', [''sdb'', ''reads''], 90),
      (''node_disk_merged_total'', [''sdb'', ''reads''], 1),
      (''node_disk_bytes_total'', [''sdb'', ''reads''], 2662400),
      (''node_disk_time_seconds_total'', [''sdb'', ''reads''], 5764607523034235 / 2 ^ 57),
      (''node_disk_completed_total'', [''sdb'', ''writes''], 7),
      (''node_disk_merged_total'', [''sdb'', ''writes''], 2),
      (''node_disk_bytes_total'', [''sdb'', ''writes''], 32768),
      (''node_disk_time_seconds_total'', [''sdb'', ''writes''], 3458764513820541 / 2 ^ 58),
      (''node_disk_io_now'', [''sdb''], 0),
      (''node_disk_io_time_seconds_total'', [''sdb''], 1297036692682703 / 2 ^ 55),
      (''node_disk_io_time_weighted_seconds_total'', [''sdb''], 3746994889972253 / 2 ^ 56),
      (''node_disk_completed_total'', [''sdb'', ''discards''], 3),
      (''node_disk_merged_total'', [''sdb'', ''discards''], 0),
      (''node_disk_bytes_total'', [''sdb'', ''discards''], 1048576),
      (''node_disk_time_seconds_total'', [''sdb'', ''discards''], 5764607523034235 / 2 ^ 60),
      (''node_disk_completed_total'', [''sdb'', ''flush''], 4),
      (''node_disk_time_seconds_total'', [''sdb'', ''flush''], 1297036692682703 / 2 ^ 57)]"
    unfolding sent list by (simp add: mul64_example)
  have "is_float64 5200"
    unfolding is_float64_def
    by (rule exI[of _ 5200], rule exI[of _ 0], rule exI[of _ 0]) simp
  with exact have 2: "mul64 5200 512 = 5200 * 512" by simp
  from spec[OF err, of 36]
  have 3: "\<bar>mul64 36 (float64 0.001) - 36 * 0.001\<bar> \<le> 36 * 0.001 / 2 ^ 52 + 1 / 2 ^ 1075"
    by simp
  from 1 2 3 show ?thesis by (intro conjI)
qed

text \<open>
  The claim as stated fails for the time metrics: the counters file of the example
  gives 36 milliseconds of I/O time for \<^verbatim>\<open>sdb\<close>, and the sample of
  \<^verbatim>\<open>node_disk_io_time_seconds_total\<close> carries \<open>1297036692682703 / 2 ^ 55\<close>, which Go
  prints as 0.036000000000000004. It is not 36 times 0.001, and it is not the float64
  nearest to that either, which is 0.036.
\<close>

theorem Update_unit_conversion_counterexample:
  "(\<exists>stats stat. getDiskstats example_env (Some ignoredDevicesPattern) = (Some stats, None) \<and>
      stats ''sdb'' = Some stat \<and> stat ! 9 = 36) \<and>
   fqName (metric_desc (snd (Update (NewDiskstatsCollector Map.empty) example_env [''sdb'', ''sda'', ''nvme0n1'']) ! 9))
     = ''node_disk_io_time_seconds_total'' \<and>
   metric_labelValues (snd (Update (NewDiskstatsCollector Map.empty) example_env [''sdb'', ''sda'', ''nvme0n1'']) ! 9)
     = [''sdb''] \<and>
   metric_value (snd (Update (NewDiskstatsCollector Map.empty) example_env [''sdb'', ''sda'', ''nvme0n1'']) ! 9)
     = 1297036692682703 / 2 ^ 55 \<and>
   metric_value (snd (Update (NewDiskstatsCollector Map.empty) example_env [''sdb'', ''sda'', ''nvme0n1'']) ! 9)
     \<noteq> 36 * 0.001 \<and>
   metric_value (snd (Update (NewDiskstatsCollector Map.empty) example_env [''sdb'', ''sda'', ''nvme0n1'']) ! 9)
     \<noteq> float64 (36 * 0.001)"
proof -
  have 1: "\<exists>stats stat. getDiskstats example_env (Some ignoredDevicesPattern) = (Some stats, None) \<and>
      stats ''sdb'' = Some stat \<and> stat ! 9 = 36"
    unfolding example_getDiskstats by simp
  have v: "metric_value (snd (Update (NewDiskstatsCollector Map.empty) example_env [''sdb'', ''sda'', ''nvme0n1'']) ! 9)
     = 1297036692682703 / 2 ^ 55"
    unfolding example_Update_nth(3) by (rule mul64_example)
  have 2: "(1297036692682703 / 2 ^ 55 :: real) \<noteq> 36 * 0.001" by simp
  have 3: "(1297036692682703 / 2 ^ 55 :: real) \<noteq> float64 (36 * 0.001)"
    unfolding float64_036 by simp
  from 1 example_Update_nth(1,2) v 2 3 show ?thesis unfolding v by (intro conjI)
qed

subsection \<open>The value of storage\_info\<close>

text \<open>
  C10. Let the collector be the one \<^verbatim>\<open>NewDiskstatsCollector\<close> builds. Every
  \<^verbatim>\<open>node_system_storage_info\<close> sample that \<^verbatim>\<open>Update\<close> sends has the value 1 and carries
  the device, the rotational flag and the scheduler of an entry of the property
  sequence as its label values; and when both collections succeed, these samples are,
  in order, one for each entry of the property sequence.
\<close>

theorem storage_info_value:
  "(\<forall>m \<in> set (snd (Update (NewDiskstatsCollector labels) e order)).
      fqName (metric_desc m) = ''node_system_storage_info'' \<longrightarrow>
        metric_value m = 1 \<and>
        (\<exists>ss s. getStorageProperties e ''/sys/block/*'' (Some ignoredDevicesPattern) = Inr ss \<and>
           s \<in> set ss \<and> metric_labelValues m = [device s, rotational s, scheduler s]))
   \<and> (\<forall>stats ss. getDiskstats e (Some ignoredDevicesPattern) = (stats, None) \<and>
          getStorageProperties e ''/sys/block/*'' (Some ignoredDevicesPattern) = Inr ss \<longrightarrow>
        filter (\<lambda>m. fqName (metric_desc m) = ''node_system_storage_info'')
          (snd (Update (NewDiskstatsCollector labels) e order)) =
        map (\<lambda>s. \<lparr>metric_desc = desc (storages (NewDiskstatsCollector labels)),
                   metric_valueType = GaugeValue,
                   metric_value = 1,
                   metric_labelValues = [device s, rotational s, scheduler s]\<rparr>) ss)"
proof -
  let ?c = "NewDiskstatsCollector labels"
  have nc: "fqName (metric_desc m) \<noteq> ''node_system_storage_info''"
    if "m \<in> set (update_counters ?c stats order)" for m stats
  proof -
    from update_counters_mem[OF that] obtain dev stat where "m \<in> set (update_device ?c dev stat)"
      by blast
    with update_device_not_storage[of labels dev stat] show ?thesis by (simp add: list_all_iff)
  qed
  have 1: "metric_value m = 1 \<and>
        (\<exists>ss s. getStorageProperties e ''/sys/block/*'' (Some ignoredDevicesPattern) = Inr ss \<and>
           s \<in> set ss \<and> metric_labelValues m = [device s, rotational s, scheduler s])"
    if m: "m \<in> set (snd (Update ?c e order))" and f: "fqName (metric_desc m) = ''node_system_storage_info''"
    for m
  proof -
    obtain stats err where g: "getDiskstats e (ignoredDevicesPattern_re ?c) = (stats, err)"
      by (cases "getDiskstats e (ignoredDevicesPattern_re ?c)")
    show ?thesis
    proof (cases err)
      case (Some a)
      with g m show ?thesis by (simp add: Update_def)
    next
      case None
      with g m Update_ok[of e ?c stats order] nc f have ms: "m \<in> set (update_storages ?c e)"
        by auto
      from update_storages_fqName[OF ms] update_storages_labels[OF ms] show ?thesis
        by (auto simp: collector_fields metric_mustNewConstMetric)
    qed
  qed
  have 2: "filter (\<lambda>m. fqName (metric_desc m) = ''node_system_storage_info'')
          (snd (Update ?c e order)) =
        map (\<lambda>s. \<lparr>metric_desc = desc (storages ?c), metric_valueType = GaugeValue,
                   metric_value = 1,
                   metric_labelValues = [device s, rotational s, scheduler s]\<rparr>) ss"
    if a: "getDiskstats e (Some ignoredDevicesPattern) = (stats, None) \<and>
          getStorageProperties e ''/sys/block/*'' (Some ignoredDevicesPattern) = Inr ss"
    for stats ss
  proof -
    let ?st = "case stats of None \<Rightarrow> Map.empty | Some m \<Rightarrow> m"
    have u: "snd (Update ?c e order) = update_counters ?c ?st order @ update_storages ?c e"
      using Update_ok[of e ?c stats order] a by (simp add: collector_fields)
    have c0: "filter (\<lambda>m. fqName (metric_desc m) = ''node_system_storage_info'')
        (update_counters ?c ?st order) = []"
      using nc by (auto simp: filter_empty_conv)
    have s0: "update_storages ?c e =
        map (\<lambda>s. \<lparr>metric_desc = desc (storages ?c), metric_valueType = GaugeValue,
                   metric_value = 1,
                   metric_labelValues = [device s, rotational s, scheduler s]\<rparr>) ss"
      using a by (simp add: update_storages_def collector_fields mustNewConstMetric_def)
                 (simp add: NewDiskstatsCollector_def Let_def)
    have s1: "filter (\<lambda>m. fqName (metric_desc m) = ''node_system_storage_info'')
        (update_storages ?c e) = update_storages ?c e"
      using update_storages_fqName[of _ labels e] by (auto simp: filter_id_conv)
    show ?thesis unfolding u filter_append c0 s1 using s0 by simp
  qed
  from 1 2 show ?thesis by blast
qed

text \<open>The theorem at the example: three samples, each with the value 1.\<close>

theorem storage_info_value_witness:
  "map (\<lambda>m. (metric_value m, metric_labelValues m))
     (filter (\<lambda>m. fqName (metric_desc m) = ''node_system_storage_info'')
        (snd (Update (NewDiskstatsCollector Map.empty) example_env [''sdb'', ''sda'', ''nvme0n1''])))
   = [(1, [''nvme0n1'', ''0'', ''none'']), (1, [''sda'', ''1'', ''mq-deadline'']),
      (1, [''sde'', ''0'', ''cfq''])]"
proof -
  from storage_info_value[of Map.empty example_env "[''sdb'', ''sda'', ''nvme0n1'']"]
    example_getDiskstats example_storages
  have "filter (\<lambda>m. fqName (metric_desc m) = ''node_system_storage_info'')
          (snd (Update (NewDiskstatsCollector Map.empty) example_env [''sdb'', ''sda'', ''nvme0n1''])) =
        map (\<lambda>s. \<lparr>metric_desc = desc (storages (NewDiskstatsCollector Map.empty)),
                   metric_valueType = GaugeValue,
                   metric_value = 1,
                   metric_labelValues = [device s, rotational s, scheduler s]\<rparr>)
          [\<lparr>device = ''nvme0n1'', rotational = ''0'', scheduler = ''none''\<rparr>,
           \<lparr>device = ''sda'', rotational = ''1'', scheduler = ''mq-deadline''\<rparr>,
           \<lparr>device = ''sde'', rotational = ''0'', scheduler = ''cfq''\<rparr>]"
    by blast
  then show ?thesis by simp
qed

subsection \<open>The matcher and the language of an expression\<close>

lemma lang_Plus_Cls:
  "lang (Plus (Cls rs)) = {t. t \<noteq> [] \<and> (\<forall>c \<in> set t. in_class rs c)}"
proof (rule set_eqI, rule iffI)
  fix t assume "t \<in> lang (Plus (Cls rs))"
  then obtain ws where t: "t = concat ws" and ne: "ws \<noteq> []" and ws: "set ws \<subseteq> {[c] | c. in_class rs c}"
    by auto
  from ws have "\<forall>c \<in> set (concat ws). in_class rs c" by (induction ws) auto
  moreover from ne ws have "concat ws \<noteq> []" by (cases ws) auto
  ultimately show "t \<in> {t. t \<noteq> [] \<and> (\<forall>c \<in> set t. in_class rs c)}" using t by simp
next
  fix t assume "t \<in> {t. t \<noteq> [] \<and> (\<forall>c \<in> set t. in_class rs c)}"
  then have ne: "t \<noteq> []" and a: "\<forall>c \<in> set t. in_class rs c" by auto
  have "t = concat (map (\<lambda>c. [c]) t)" by (induction t) auto
  moreover have "set (map (\<lambda>c. [c]) t) \<subseteq> {[c] | c. in_class rs c}" using a by auto
  moreover have "map (\<lambda>c. [c]) t \<noteq> []" using ne by simp
  ultimately show "t \<in> lang (Plus (Cls rs))" unfolding lang.simps by blast
qed

lemma matches_Plus_Cls_Nil: "matches (Plus (Cls rs)) b [] = []"
  by (subst matches.simps) (simp del: matches.simps(5))

lemma matches_Plus_Cls_Cons:
  "matches (Plus (Cls rs)) b (c # cs) =
     (if in_class rs c then map (\<lambda>m. 1 + m) (matches (Plus (Cls rs)) False cs) @ [1] else [])"
  by (subst matches.simps) (simp del: matches.simps(5))

lemma matches_Plus_Cls:
  "set (matches (Plus (Cls rs)) b s) = {n. 0 < n \<and> n \<le> length (takeWhile (in_class rs) s)}"
proof (induction s arbitrary: b)
  case Nil
  show ?case unfolding matches_Plus_Cls_Nil by auto
next
  case (Cons c cs)
  show ?case
  proof (cases "in_class rs c")
    case True
    have "set (matches (Plus (Cls rs)) b (c # cs)) =
        (\<lambda>m. 1 + m) ` {n. 0 < n \<and> n \<le> length (takeWhile (in_class rs) cs)} \<union> {1}"
      unfolding matches_Plus_Cls_Cons using True Cons.IH[of False]
      by (simp del: matches.simps(5))
    also have "\<dots> = {n. 0 < n \<and> n \<le> length (takeWhile (in_class rs) (c # cs))}"
      using True by (auto simp: image_iff) presburger
    finally show ?thesis .
  next
    case False
    then show ?thesis unfolding matches_Plus_Cls_Cons by auto
  qed
qed

lemma le_length_takeWhile:
  "(n \<le> length (takeWhile P s)) = (n \<le> length s \<and> (\<forall>c \<in> set (take n s). P c))"
proof (induction s arbitrary: n)
  case Nil
  then show ?case by simp
next
  case (Cons c cs)
  then show ?case by (cases n) auto
qed

lemma matches_lang_Plus_Cls:
  "set (matches (Plus (Cls rs)) b s) = {n. n \<le> length s \<and> take n s \<in> lang (Plus (Cls rs))}"
proof -
  have "(0 < n \<and> n \<le> length (takeWhile (in_class rs) s)) =
        (n \<le> length s \<and> take n s \<noteq> [] \<and> (\<forall>c \<in> set (take n s). in_class rs c))" for n
    unfolding le_length_takeWhile by (cases s) auto
  then show ?thesis
    unfolding matches_Plus_Cls lang_Plus_Cls by simp
qed

lemma set_matches_Seq:
  "k \<in> set (matches (Seq r1 r2) b s) \<longleftrightarrow>
     (\<exists>n m. k = n + m \<and> n \<in> set (matches r1 b s) \<and>
        m \<in> set (matches r2 (b \<and> n = 0) (drop n s)))"
  by (auto simp del: matches.simps(5))

lemma matches_lang:
  "simple r \<Longrightarrow> set (matches r b s) = {n. n \<le> length s \<and> take n s \<in> lang r}"
proof (induction r arbitrary: b s)
  case (Lit w)
  have "length w \<le> length s" if "take (length w) s = w"
  proof -
    have "length (take (length w) s) = length w" using that by simp
    then show ?thesis by simp
  qed
  then show ?case by (auto simp del: matches.simps(5))
next
  case (Cls rs)
  show ?case
  proof (cases s)
    case Nil
    then show ?thesis by (auto simp del: matches.simps(5))
  next
    case (Cons c cs)
    have "take n (c # cs) = [c'] \<longleftrightarrow> n = 1 \<and> c' = c \<or> (n > 1 \<and> cs = [] \<and> c' = c)" for n c'
      by (cases n) (auto simp: take_Cons')
    then show ?thesis using Cons by (auto simp del: matches.simps(5))
  qed
next
  case (Seq r1 r2)
  then have s1: "simple r1" and s2: "simple r2" by auto
  note i1 = Seq.IH(1)[OF s1] and i2 = Seq.IH(2)[OF s2]
  show ?case
  proof (rule set_eqI, rule iffI)
    fix k assume "k \<in> set (matches (Seq r1 r2) b s)"
    then obtain n m where k: "k = n + m" and n: "n \<in> set (matches r1 b s)"
      and m: "m \<in> set (matches r2 (b \<and> n = 0) (drop n s))"
      unfolding set_matches_Seq by blast
    from n i1 have n1: "n \<le> length s" "take n s \<in> lang r1" by auto
    from m i2 have m1: "m \<le> length s - n" "take m (drop n s) \<in> lang r2" by auto
    have "take (n + m) s = take n s @ take m (drop n s)" by (simp add: take_add)
    with n1 m1 k show "k \<in> {n. n \<le> length s \<and> take n s \<in> lang (Seq r1 r2)}" by auto
  next
    fix k assume "k \<in> {n. n \<le> length s \<and> take n s \<in> lang (Seq r1 r2)}"
    then obtain u v where k: "k \<le> length s" and uv: "take k s = u @ v" and u: "u \<in> lang r1" and v: "v \<in> lang r2"
      by auto
    from uv k have lk: "length u + length v = k" by (metis length_append length_take min.absorb2)
    from uv have tu: "take (length u) s = u"
      by (metis append_eq_conv_conj lk le_add1 take_take min.absorb1)
    from uv have tv: "take (length v) (drop (length u) s) = v"
      by (metis append_eq_conv_conj lk drop_take add_diff_cancel_left' take_drop add.commute)
    from tu u k lk i1[of b s] have n: "length u \<in> set (matches r1 b s)" by auto
    from tv v k lk i2[of "b \<and> length u = 0" "drop (length u) s"]
    have m: "length v \<in> set (matches r2 (b \<and> length u = 0) (drop (length u) s))" by auto
    show "k \<in> set (matches (Seq r1 r2) b s)"
      unfolding set_matches_Seq
      by (rule exI[of _ "length u"], rule exI[of _ "length v"]) (intro conjI lk[symmetric] n m)
  qed
next
  case (Alt r1 r2)
  then show ?case by (auto simp del: matches.simps(5))
next
  case (Plus r)
  from Plus.prems obtain rs where r: "r = Cls rs" by (cases r) auto
  show ?case unfolding r by (rule matches_lang_Plus_Cls)
next
  case Bol
  then show ?case by simp
next
  case Eol
  then show ?case by simp
qed

subsection \<open>An anchored pattern that ends in digits\<close>

lemma matches_Bol_False: "matches (Seq Bol r) False s = []"
  by (simp del: matches.simps(5))

lemma matches_Bol_True: "matches (Seq Bol r) True s = matches r True s"
  by (simp del: matches.simps(5) add: map_idI)

lemma Find_at_Bol_False: "Find_at (Seq Bol r) False s = None"
proof (induction s)
  case Nil
  show ?case by (subst Find_at.simps) (simp del: Find_at.simps matches.simps add: matches_Bol_False)
next
  case (Cons c cs)
  show ?case
    by (subst Find_at.simps) (simp del: Find_at.simps matches.simps add: matches_Bol_False Cons.IH)
qed

lemma MatchString_Bol: "MatchString (Seq Bol r) s = (matches r True s \<noteq> [])"
proof -
  have "Find_at (Seq Bol r) True s =
      (case matches r True s of n # _ \<Rightarrow> Some (take n s) | [] \<Rightarrow> None)"
    by (subst Find_at.simps)
       (simp del: Find_at.simps matches.simps add: matches_Bol_True Find_at_Bol_False
             split: list.splits)
  then show ?thesis by (simp add: MatchString_def Find_def split: list.splits)
qed

lemma matches_Plus_digit:
  "set (matches (Plus digit) b t) = {n. 0 < n \<and> n \<le> length (takeWhile is_digit t)}"
  unfolding digit_def matches_Plus_Cls is_digit_def[abs_def] ..

lemma takeWhile_all_digits:
  "(0 < length t \<and> length t \<le> length (takeWhile is_digit t)) = digits t"
proof
  assume a: "0 < length t \<and> length t \<le> length (takeWhile is_digit t)"
  then have "length (takeWhile is_digit t) = length t"
    using length_takeWhile_le[of is_digit t] by simp
  then have "takeWhile is_digit t = t" by (metis takeWhile_eq_take take_all order_refl)
  then have "\<forall>c \<in> set t. is_digit c" by simp
  with a show "digits t" by (auto simp: digits_def list_all_iff)
next
  assume a: "digits t"
  then have tw: "takeWhile is_digit t = t" by (simp add: digits_def list_all_iff)
  have "length (takeWhile is_digit t) = length t" by (simp only: tw)
  moreover from a have "0 < length t" by (simp add: digits_def)
  ultimately show "0 < length t \<and> length t \<le> length (takeWhile is_digit t)" by simp
qed

lemma mem_matches_digits_Eol:
  "k \<in> set (matches (Seq (Plus digit) Eol) b t) \<longleftrightarrow> digits t \<and> k = length t"
proof -
  have eol: "m \<in> set (matches Eol b' u) \<longleftrightarrow> m = 0 \<and> u = []" for m b' u
    by simp
  have "k \<in> set (matches (Seq (Plus digit) Eol) b t) \<longleftrightarrow>
      (\<exists>n m. k = n + m \<and> (0 < n \<and> n \<le> length (takeWhile is_digit t)) \<and> m = 0 \<and> drop n t = [])"
    unfolding set_matches_Seq eol matches_Plus_digit by simp
  also have "\<dots> \<longleftrightarrow> 0 < k \<and> k \<le> length (takeWhile is_digit t) \<and> length t \<le> k"
    by simp
  also have "\<dots> \<longleftrightarrow> (0 < length t \<and> length t \<le> length (takeWhile is_digit t)) \<and> k = length t"
    using length_takeWhile_le[of is_digit t] by auto
  finally show ?thesis unfolding takeWhile_all_digits .
qed

lemma not_Nil_iff_mem: "(xs \<noteq> []) = (\<exists>k. k \<in> set xs)"
  by (cases xs) auto

lemma MatchString_prefix_digits:
  assumes "simple r"
  shows "MatchString (Seq Bol (Seq r (Seq (Plus digit) Eol))) s =
           (\<exists>p ds. s = p @ ds \<and> p \<in> lang r \<and> digits ds)"
proof -
  have "(matches (Seq r (Seq (Plus digit) Eol)) True s \<noteq> []) =
        (\<exists>k. k \<in> set (matches (Seq r (Seq (Plus digit) Eol)) True s))"
    by (rule not_Nil_iff_mem)
  also have "\<dots> = (\<exists>k n m. k = n + m \<and> (n \<le> length s \<and> take n s \<in> lang r) \<and>
                   (digits (drop n s) \<and> m = length (drop n s)))"
    unfolding set_matches_Seq[of _ r] mem_matches_digits_Eol matches_lang[OF assms] mem_Collect_eq ..
  also have "\<dots> = (\<exists>n. n \<le> length s \<and> take n s \<in> lang r \<and> digits (drop n s))"
    by blast
  also have "\<dots> = (\<exists>p ds. s = p @ ds \<and> p \<in> lang r \<and> digits ds)"
  proof
    assume "\<exists>n. n \<le> length s \<and> take n s \<in> lang r \<and> digits (drop n s)"
    then obtain n where "take n s \<in> lang r" "digits (drop n s)" by blast
    moreover have "s = take n s @ drop n s" by simp
    ultimately show "\<exists>p ds. s = p @ ds \<and> p \<in> lang r \<and> digits ds" by blast
  next
    assume "\<exists>p ds. s = p @ ds \<and> p \<in> lang r \<and> digits ds"
    then obtain p ds where "s = p @ ds" "p \<in> lang r" "digits ds" by blast
    then have "length p \<le> length s \<and> take (length p) s \<in> lang r \<and> digits (drop (length p) s)"
      by simp
    then show "\<exists>n. n \<le> length s \<and> take n s \<in> lang r \<and> digits (drop n s)" by blast
  qed
  finally show ?thesis unfolding MatchString_Bol .
qed

subsection \<open>The default exclusion pattern\<close>

lemma lang_Plus_digit: "lang (Plus digit) = {t. digits t}"
  unfolding digit_def lang_Plus_Cls by (auto simp: digits_def is_digit_def list_all_iff)

lemma lang_Seq_Lit: "lang (Seq (Lit w) r) = (\<lambda>v. w @ v) ` lang r"
  by auto

lemma lang_Seq_Alt: "lang (Seq (Alt r1 r2) r) = lang (Seq r1 r) \<union> lang (Seq r2 r)"
  by auto

lemma lang_Seq_Plus_digit: "lang (Seq (Plus digit) r) = {d @ v | d v. digits d \<and> v \<in> lang r}"
  unfolding lang.simps(3) lang_Plus_digit by auto

lemma simple_ignored_prefix:
  "simple (Alt (Lit ''ram'')
           (Alt (Lit ''loop'')
           (Alt (Lit ''fd'')
           (Alt (Seq (Alt (Lit ''h'') (Alt (Lit ''s'') (Alt (Lit ''v'') (Lit ''xv''))))
                     (Seq (Lit ''d'') (Cls [(CHR ''a'', CHR ''z'')])))
                (Seq (Lit ''nvme'')
                     (Seq (Plus digit) (Seq (Lit ''n'') (Seq (Plus digit) (Lit ''p'')))))))))"
  by (simp add: digit_def)

lemma lang_ignored_prefix:
  "(p \<in> lang (Alt (Lit ''ram'')
           (Alt (Lit ''loop'')
           (Alt (Lit ''fd'')
           (Alt (Seq (Alt (Lit ''h'') (Alt (Lit ''s'') (Alt (Lit ''v'') (Lit ''xv''))))
                     (Seq (Lit ''d'') (Cls [(CHR ''a'', CHR ''z'')])))
                (Seq (Lit ''nvme'')
                     (Seq (Plus digit) (Seq (Lit ''n'') (Seq (Plus digit) (Lit ''p''))))))))))
   = (p \<in> {''ram'', ''loop'', ''fd''} \<or>
      (\<exists>c l. c \<in> {CHR ''h'', CHR ''s'', CHR ''v''} \<and> is_lower l \<and> p = [c, CHR ''d'', l]) \<or>
      (\<exists>l. is_lower l \<and> p = ''xvd'' @ [l]) \<or>
      (\<exists>d1 d2. digits d1 \<and> digits d2 \<and> p = ''nvme'' @ d1 @ ''n'' @ d2 @ ''p''))"
proof -
  have 1: "lang (Seq (Alt (Lit ''h'') (Alt (Lit ''s'') (Alt (Lit ''v'') (Lit ''xv''))))
                     (Seq (Lit ''d'') (Cls [(CHR ''a'', CHR ''z'')]))) =
      {[c, CHR ''d'', l] | c l. c \<in> {CHR ''h'', CHR ''s'', CHR ''v''} \<and> is_lower l} \<union>
      {''xvd'' @ [l] | l. is_lower l}"
    unfolding lang_Seq_Alt lang_Seq_Lit lang.simps(2) is_lower_def by auto
  have a: "lang (Seq (Plus digit) (Lit ''p'')) = {d2 @ ''p'' | d2. digits d2}"
    unfolding lang_Seq_Plus_digit lang.simps(1) by blast
  have b: "lang (Seq (Lit ''n'') (Seq (Plus digit) (Lit ''p''))) = {''n'' @ d2 @ ''p'' | d2. digits d2}"
    unfolding lang_Seq_Lit a by blast
  have c: "lang (Seq (Plus digit) (Seq (Lit ''n'') (Seq (Plus digit) (Lit ''p'')))) =
      {d1 @ ''n'' @ d2 @ ''p'' | d1 d2. digits d1 \<and> digits d2}"
    unfolding lang_Seq_Plus_digit b by blast
  have 2: "lang (Seq (Lit ''nvme'')
                     (Seq (Plus digit) (Seq (Lit ''n'') (Seq (Plus digit) (Lit ''p''))))) =
      {''nvme'' @ d1 @ ''n'' @ d2 @ ''p'' | d1 d2. digits d1 \<and> digits d2}"
    unfolding lang_Seq_Lit c by blast
  have "p \<in> lang (Lit ''ram'') \<union> (lang (Lit ''loop'') \<union> (lang (Lit ''fd'') \<union>
          ({[c, CHR ''d'', l] | c l. c \<in> {CHR ''h'', CHR ''s'', CHR ''v''} \<and> is_lower l} \<union>
           {''xvd'' @ [l] | l. is_lower l} \<union>
           {''nvme'' @ d1 @ ''n'' @ d2 @ ''p'' | d1 d2. digits d1 \<and> digits d2}))) \<longleftrightarrow>
        (p \<in> {''ram'', ''loop'', ''fd''} \<or>
      (\<exists>c l. c \<in> {CHR ''h'', CHR ''s'', CHR ''v''} \<and> is_lower l \<and> p = [c, CHR ''d'', l]) \<or>
      (\<exists>l. is_lower l \<and> p = ''xvd'' @ [l]) \<or>
      (\<exists>d1 d2. digits d1 \<and> digits d2 \<and> p = ''nvme'' @ d1 @ ''n'' @ d2 @ ''p''))"
    unfolding lang.simps(1) Un_iff mem_Collect_eq by blast
  then show ?thesis
    unfolding lang.simps(4) 1 2 .
qed

lemma not_digit_chars:
  "\<not> is_digit (CHR ''n'')" "\<not> is_digit (CHR ''p'')"
  by (simp_all add: is_digit_def in_class_def)

lemma takeWhile_digits_then:
  "digits d \<Longrightarrow> \<not> is_digit c \<Longrightarrow> takeWhile is_digit (d @ c # rest) = d"
  by (simp add: digits_def list_all_iff takeWhile_tail)

lemma MatchString_ignoredDevicesPattern:
  "MatchString ignoredDevicesPattern s =
      (\<exists>p ds. s = p @ ds \<and> digits ds \<and>
         (p \<in> {''ram'', ''loop'', ''fd''} \<or>
          (\<exists>c l. c \<in> {CHR ''h'', CHR ''s'', CHR ''v''} \<and> is_lower l \<and> p = [c, CHR ''d'', l]) \<or>
          (\<exists>l. is_lower l \<and> p = ''xvd'' @ [l]) \<or>
          (\<exists>d1 d2. digits d1 \<and> digits d2 \<and> p = ''nvme'' @ d1 @ ''n'' @ d2 @ ''p'')))"
  unfolding ignoredDevicesPattern_def MatchString_prefix_digits[OF simple_ignored_prefix]
    lang_ignored_prefix
  by blast

lemma not_MatchString_no_digit:
  assumes "s = [] \<or> \<not> is_digit (last s)"
  shows "\<not> MatchString ignoredDevicesPattern s"
proof
  assume "MatchString ignoredDevicesPattern s"
  then obtain p ds where s: "s = p @ ds" and d: "digits ds"
    unfolding MatchString_ignoredDevicesPattern by blast
  from d have "ds \<noteq> []" "is_digit (last ds)" by (auto simp: digits_def list_all_iff)
  with s have "s \<noteq> []" "is_digit (last s)" by auto
  with assms show False by blast
qed

lemma nvme_namespace_no_partition:
  assumes eq: "d1 @ CHR ''n'' # d2 = e1 @ CHR ''n'' # (e2 @ ''p'' @ ds)"
    and d1: "digits d1" and d2: "digits d2" and e1: "digits e1"
  shows False
proof -
  have "takeWhile is_digit (d1 @ CHR ''n'' # d2) = d1"
    by (rule takeWhile_digits_then[OF d1 not_digit_chars(1)])
  moreover have "takeWhile is_digit (e1 @ CHR ''n'' # (e2 @ ''p'' @ ds)) = e1"
    by (rule takeWhile_digits_then[OF e1 not_digit_chars(1)])
  ultimately have "d1 = e1" using eq by simp
  with eq have "d2 = e2 @ ''p'' @ ds" by simp
  then have "CHR ''p'' \<in> set d2" by simp
  with d2 have "is_digit (CHR ''p'')" by (simp add: digits_def list_all_iff)
  with not_digit_chars(2) show False by blast
qed

lemma not_MatchString_nvme_namespace:
  assumes d1: "digits d1" and d2: "digits d2"
  shows "\<not> MatchString ignoredDevicesPattern (''nvme'' @ d1 @ ''n'' @ d2)"
proof
  assume "MatchString ignoredDevicesPattern (''nvme'' @ d1 @ ''n'' @ d2)"
  then show False
    unfolding MatchString_ignoredDevicesPattern
  proof (elim exE conjE disjE)
    fix p ds
    assume "''nvme'' @ d1 @ ''n'' @ d2 = p @ ds" "p \<in> {''ram'', ''loop'', ''fd''}"
    then show False by auto
  next
    fix p ds c l
    assume "''nvme'' @ d1 @ ''n'' @ d2 = p @ ds" "c \<in> {CHR ''h'', CHR ''s'', CHR ''v''}"
      "p = [c, CHR ''d'', l]"
    then show False by auto
  next
    fix p ds l
    assume "''nvme'' @ d1 @ ''n'' @ d2 = p @ ds" "p = ''xvd'' @ [l]"
    then show False by auto
  next
    fix p ds e1 e2
    assume s: "''nvme'' @ d1 @ ''n'' @ d2 = p @ ds" and e1: "digits e1"
      and p: "p = ''nvme'' @ e1 @ ''n'' @ e2 @ ''p''"
    from s p have "d1 @ CHR ''n'' # d2 = e1 @ CHR ''n'' # (e2 @ ''p'' @ ds)" by simp
    from nvme_namespace_no_partition[OF this d1 d2 e1] show False .
  qed
qed

lemma sda_loop0_parsed:
  "\<exists>stats. parseDiskstats pf diskstats_sda_loop0 (Some ignoredDevicesPattern) = (Some stats, None) \<and>
     dom stats = {''sda''}"
  by (simp add: diskstats_sda_loop0_def parseDiskstats_def Let_def eval_Fields eval_regexp)

lemmas eval_digits = digits_def is_digit_def is_lower_def in_class_def

text \<open>
  C8 (amended). The default pattern matches a device name exactly when the name is
  one of the following, followed by one or more digits: \<^verbatim>\<open>ram\<close>, \<^verbatim>\<open>loop\<close>, \<^verbatim>\<open>fd\<close> (ram
  disks, loop devices, floppies); \<^verbatim>\<open>hd\<close>, \<^verbatim>\<open>sd\<close> or \<^verbatim>\<open>vd\<close> and exactly one lower-case
  letter, or \<^verbatim>\<open>xvd\<close> and exactly one lower-case letter (partitions of the disks whose
  name has one letter after the class); \<^verbatim>\<open>nvme\<close>, digits, \<^verbatim>\<open>n\<close>, digits, \<^verbatim>\<open>p\<close>
  (partitions of an NVMe namespace). So a name that does not end in a digit, such as
  a whole disk \<^verbatim>\<open>sda\<close>, is retained, and so is every NVMe namespace \<^verbatim>\<open>nvme\<close>, digits,
  \<^verbatim>\<open>n\<close>, digits. For the two-line source that lists \<^verbatim>\<open>sda\<close> and \<^verbatim>\<open>loop0\<close>, whatever
  \<^verbatim>\<open>ParseFloat\<close> does, the parse returns a map whose only key is \<^verbatim>\<open>sda\<close>.
\<close>

theorem ignoredDevicesPattern_excludes:
  "(MatchString ignoredDevicesPattern s =
      (\<exists>p ds. s = p @ ds \<and> digits ds \<and>
         (p \<in> {''ram'', ''loop'', ''fd''} \<or>
          (\<exists>c l. c \<in> {CHR ''h'', CHR ''s'', CHR ''v''} \<and> is_lower l \<and> p = [c, CHR ''d'', l]) \<or>
          (\<exists>l. is_lower l \<and> p = ''xvd'' @ [l]) \<or>
          (\<exists>d1 d2. digits d1 \<and> digits d2 \<and> p = ''nvme'' @ d1 @ ''n'' @ d2 @ ''p''))))
   \<and> ((s = [] \<or> \<not> is_digit (last s)) \<longrightarrow> \<not> MatchString ignoredDevicesPattern s)
   \<and> (\<forall>d1 d2. digits d1 \<and> digits d2 \<longrightarrow>
         \<not> MatchString ignoredDevicesPattern (''nvme'' @ d1 @ ''n'' @ d2))
   \<and> (\<exists>stats. parseDiskstats pf diskstats_sda_loop0 (Some ignoredDevicesPattern) = (Some stats, None) \<and>
         dom stats = {''sda''})"
proof (intro conjI)
  show "MatchString ignoredDevicesPattern s =
      (\<exists>p ds. s = p @ ds \<and> digits ds \<and>
         (p \<in> {''ram'', ''loop'', ''fd''} \<or>
          (\<exists>c l. c \<in> {CHR ''h'', CHR ''s'', CHR ''v''} \<and> is_lower l \<and> p = [c, CHR ''d'', l]) \<or>
          (\<exists>l. is_lower l \<and> p = ''xvd'' @ [l]) \<or>
          (\<exists>d1 d2. digits d1 \<and> digits d2 \<and> p = ''nvme'' @ d1 @ ''n'' @ d2 @ ''p'')))"
    by (rule MatchString_ignoredDevicesPattern)
  show "(s = [] \<or> \<not> is_digit (last s)) \<longrightarrow> \<not> MatchString ignoredDevicesPattern s"
    by (rule impI) (rule not_MatchString_no_digit)
  show "\<forall>d1 d2. digits d1 \<and> digits d2 \<longrightarrow>
         \<not> MatchString ignoredDevicesPattern (''nvme'' @ d1 @ ''n'' @ d2)"
    using not_MatchString_nvme_namespace by (intro allI impI) (elim conjE)
  show "\<exists>stats. parseDiskstats pf diskstats_sda_loop0 (Some ignoredDevicesPattern) = (Some stats, None) \<and>
         dom stats = {''sda''}"
    by (rule sda_loop0_parsed)
qed

text \<open>
  The theorem at \<^verbatim>\<open>ram0\<close>, \<^verbatim>\<open>loop0\<close>, \<^verbatim>\<open>fd0\<close>, \<^verbatim>\<open>sda1\<close>, \<^verbatim>\<open>xvdb12\<close> and \<^verbatim>\<open>nvme0n1p2\<close>
  (excluded), at \<^verbatim>\<open>sda\<close> and \<^verbatim>\<open>nvme0n1\<close> (retained), and the two-line source.
\<close>

theorem ignoredDevicesPattern_excludes_witness:
  "MatchString ignoredDevicesPattern ''ram0'' \<and>
   MatchString ignoredDevicesPattern ''loop0'' \<and>
   MatchString ignoredDevicesPattern ''fd0'' \<and>
   MatchString ignoredDevicesPattern ''sda1'' \<and>
   MatchString ignoredDevicesPattern ''xvdb12'' \<and>
   MatchString ignoredDevicesPattern ''nvme0n1p2'' \<and>
   \<not> MatchString ignoredDevicesPattern ''sda'' \<and>
   \<not> MatchString ignoredDevicesPattern ''nvme0n1'' \<and>
   (\<exists>stats. parseDiskstats parse_decimal diskstats_sda_loop0 (Some ignoredDevicesPattern)
        = (Some stats, None) \<and> dom stats = {''sda''})"
proof -
  note iff = ignoredDevicesPattern_excludes[THEN conjunct1, THEN iffD2]
  have 1: "MatchString ignoredDevicesPattern ''ram0''"
    by (rule iff[of "''ram0''"], rule exI[of _ "''ram''"], rule exI[of _ "''0''"])
       (simp add: eval_digits)
  have 2: "MatchString ignoredDevicesPattern ''loop0''"
    by (rule iff[of "''loop0''"], rule exI[of _ "''loop''"], rule exI[of _ "''0''"])
       (simp add: eval_digits)
  have 3: "MatchString ignoredDevicesPattern ''fd0''"
    by (rule iff[of "''fd0''"], rule exI[of _ "''fd''"], rule exI[of _ "''0''"])
       (simp add: eval_digits)
  have 4: "MatchString ignoredDevicesPattern ''sda1''"
    by (rule iff[of "''sda1''"], rule exI[of _ "''sda''"], rule exI[of _ "''1''"])
       (simp add: eval_digits)
  have 5: "MatchString ignoredDevicesPattern ''xvdb12''"
    by (rule iff[of "''xvdb12''"], rule exI[of _ "''xvdb''"], rule exI[of _ "''12''"])
       (simp add: eval_digits)
  have d0: "digits ''0''" and d1: "digits ''1''" by (simp_all add: eval_digits)
  have 6: "MatchString ignoredDevicesPattern ''nvme0n1p2''"
  proof (rule iff[of "''nvme0n1p2''"], rule exI[of _ "''nvme0n1p''"], rule exI[of _ "''2''"],
      intro conjI disjI2)
    show "''nvme0n1p2'' = ''nvme0n1p'' @ ''2''" by simp
    show "digits ''2''" by (simp add: eval_digits)
    show "\<exists>d1 d2. digits d1 \<and> digits d2 \<and> ''nvme0n1p'' = ''nvme'' @ d1 @ ''n'' @ d2 @ ''p''"
      by (rule exI[of _ "''0''"], rule exI[of _ "''1''"]) (simp add: d0 d1)
  qed
  have 7: "\<not> MatchString ignoredDevicesPattern ''sda''"
    using ignoredDevicesPattern_excludes[of "''sda''" parse_decimal, THEN conjunct2, THEN conjunct1]
    by (simp add: eval_digits)
  have 8: "\<not> MatchString ignoredDevicesPattern ''nvme0n1''"
    using ignoredDevicesPattern_excludes[of "''sda''" parse_decimal, THEN conjunct2, THEN conjunct2,
        THEN conjunct1, THEN spec, THEN spec, THEN mp, OF conjI[OF d0 d1]]
    by simp
  note 9 = ignoredDevicesPattern_excludes[of "''sda''" parse_decimal, THEN conjunct2, THEN conjunct2,
        THEN conjunct2]
  from 1 2 3 4 5 6 7 8 9 show ?thesis by (intro conjI)
qed

text \<open>
  The claim as stated fails for the disks whose name has more than one letter after
  the class, as the twenty-seventh disk \<^verbatim>\<open>sdaa\<close> has: the pattern does not match the
  partitions \<^verbatim>\<open>sdaa1\<close>, \<^verbatim>\<open>vdab2\<close> and \<^verbatim>\<open>xvdaa1\<close>, and the map of a source that lists
  \<^verbatim>\<open>sdaa\<close> and \<^verbatim>\<open>sdaa1\<close> has both.
\<close>

theorem ignoredDevicesPattern_excludes_counterexample:
  "\<not> MatchString ignoredDevicesPattern ''sdaa1'' \<and>
   \<not> MatchString ignoredDevicesPattern ''vdab2'' \<and>
   \<not> MatchString ignoredDevicesPattern ''xvdaa1'' \<and>
   parseDiskstats parse_decimal diskstats_sdaa (Some ignoredDevicesPattern) =
     (Some [''sdaa'' \<mapsto> [4711, 12, 93842, 1410, 3306, 1203, 72216, 9960, 0, 5120, 11370],
            ''sdaa1'' \<mapsto> [48, 0, 718, 26, 0, 0, 0, 0, 0, 44, 26]],
      None)"
proof -
  have 1: "\<not> MatchString ignoredDevicesPattern ''sdaa1''"
    "\<not> MatchString ignoredDevicesPattern ''vdab2''"
    "\<not> MatchString ignoredDevicesPattern ''xvdaa1''"
    by (simp_all add: eval_regexp)
  have 2: "parseDiskstats parse_decimal diskstats_sdaa (Some ignoredDevicesPattern) =
     (Some [''sdaa'' \<mapsto> [4711, 12, 93842, 1410, 3306, 1203, 72216, 9960, 0, 5120, 11370],
            ''sdaa1'' \<mapsto> [48, 0, 718, 26, 0, 0, 0, 0, 0, 44, 26]],
      None)"
    by (simp add: diskstats_sdaa_def eval_Fields eval_regexp eval_parse)
  from 1 2 show ?thesis by (intro conjI)
qed

subsection \<open>The scheduler of a device\<close>

text \<open>
  C6. Let the \<^verbatim>\<open>scheduler\<close> file of a device be readable, with the first line \<open>line\<close>.
  For the line \<^verbatim>\<open>noop [mq-deadline] kyber\<close> the reader returns \<^verbatim>\<open>mq-deadline\<close>, and for
  the line \<^verbatim>\<open>none\<close> it returns \<^verbatim>\<open>none\<close>. It returns an error exactly when the pattern
  \<^verbatim>\<open>[[a-z-]+]|none\<close> matches nowhere in the line. That pattern does not ask for an
  opening bracket: the line \<^verbatim>\<open>cfq]\<close>, which has neither a bracket-delimited token nor
  \<^verbatim>\<open>none\<close>, gives the scheduler \<^verbatim>\<open>cfq\<close> and no error.
\<close>

theorem getDeviceScheduler_first_line:
  assumes "ReadFile e (Clean e (devpath @ ''/queue/scheduler'')) = Inr content"
    and "ReadLine content = Inr line"
  shows "(line = ''noop [mq-deadline] kyber'' \<longrightarrow> getDeviceScheduler e devpath = Inr ''mq-deadline'') \<and>
         (line = ''none'' \<longrightarrow> getDeviceScheduler e devpath = Inr ''none'') \<and>
         (line = ''cfq]'' \<longrightarrow> getDeviceScheduler e devpath = Inr ''cfq'') \<and>
         (isl (getDeviceScheduler e devpath) = (Find schedulerPattern line = None))"
proof -
  have f1: "Find schedulerPattern ''noop [mq-deadline] kyber'' = Some ''[mq-deadline]''"
    by (simp add: Find_def schedulerPattern_def in_class_def)
  have f2: "Find schedulerPattern ''none'' = Some ''none''"
    by (simp add: Find_def schedulerPattern_def in_class_def)
  have f3: "Find schedulerPattern ''cfq]'' = Some ''cfq]''"
    by (simp add: Find_def schedulerPattern_def in_class_def)
  have t: "Trim ''[mq-deadline]'' ''[]'' = ''mq-deadline''" "Trim ''none'' ''[]'' = ''none''"
    "Trim ''cfq]'' ''[]'' = ''cfq''"
    by (simp_all add: Trim_def)
  have g: "getDeviceScheduler e devpath =
      (case Find schedulerPattern line of Some sched \<Rightarrow> Inr (Trim sched ''[]'')
       | None \<Rightarrow> Inl (Errorf ''unknown scheduler: '' line))"
    using assms by (simp add: getDeviceScheduler_def Let_def)
  show ?thesis unfolding g using f1 f2 f3 t by (auto split: option.splits)
qed

text \<open>
  The theorem at the example tree: the lines of \<^verbatim>\<open>sda\<close>, \<^verbatim>\<open>nvme0n1\<close> and \<^verbatim>\<open>sde\<close> are the
  three lines above.
\<close>

theorem getDeviceScheduler_first_line_witness:
  "getDeviceScheduler example_env ''/sys/block/sda'' = Inr ''mq-deadline'' \<and>
   getDeviceScheduler example_env ''/sys/block/nvme0n1'' = Inr ''none'' \<and>
   getDeviceScheduler example_env ''/sys/block/sde'' = Inr ''cfq''"
proof -
  have r: "ReadFile example_env (Clean example_env (''/sys/block/sda'' @ ''/queue/scheduler''))
             = Inr (''noop [mq-deadline] kyber'' @ [CHR 0x0A])"
    "ReadFile example_env (Clean example_env (''/sys/block/nvme0n1'' @ ''/queue/scheduler''))
             = Inr (''none'' @ [CHR 0x0A])"
    "ReadFile example_env (Clean example_env (''/sys/block/sde'' @ ''/queue/scheduler''))
             = Inr (''cfq]'' @ [CHR 0x0A])"
    by (simp_all add: example_env_def sysfs_files_def)
  have l: "ReadLine (''noop [mq-deadline] kyber'' @ [CHR 0x0A]) = Inr ''noop [mq-deadline] kyber''"
    "ReadLine (''none'' @ [CHR 0x0A]) = Inr ''none''"
    "ReadLine (''cfq]'' @ [CHR 0x0A]) = Inr ''cfq]''"
    by (simp_all add: ReadLine_def)
  from getDeviceScheduler_first_line[OF r(1) l(1)] getDeviceScheduler_first_line[OF r(2) l(2)]
    getDeviceScheduler_first_line[OF r(3) l(3)]
  show ?thesis by simp
qed

end
